theory Spec2Isabelle
  imports Main
begin

section \<open>JavaScript values used by the agent route\<close>

text \<open>
  Text is modelled by Isabelle strings: lists of the 256 code units \<open>0x00..0xFF\<close>.
  A JavaScript string whose code units all lie in that range is modelled exactly;
  texts with higher code units are outside the model.
\<close>

definition NL :: string where
  "NL = [CHR 0x0A]"

definition digit_char :: "nat \<Rightarrow> char" where
  "digit_char d = char_of (48 + d)"

text \<open>A non-negative integer inside a template literal: its decimal digits.\<close>

function show_nat :: "nat \<Rightarrow> string" where
  "show_nat n = (if n < 10 then [digit_char n] else show_nat (n div 10) @ [digit_char (n mod 10)])"
  by pat_completeness auto
termination
  by (relation "measure id") auto

declare show_nat.simps [simp del]

text \<open>\<open>String.prototype.includes\<close> and \<open>startsWith\<close>/\<open>endsWith\<close>.\<close>

definition startsWith :: "string \<Rightarrow> string \<Rightarrow> bool" where
  "startsWith s p = (take (length p) s = p)"

definition endsWith :: "string \<Rightarrow> string \<Rightarrow> bool" where
  "endsWith s p = (length p \<le> length s \<and> drop (length s - length p) s = p)"

fun str_includes :: "string \<Rightarrow> string \<Rightarrow> bool" where
  "str_includes [] p = (p = [])"
| "str_includes (c # cs) p = (startsWith (c # cs) p \<or> str_includes cs p)"

text \<open>\<open>String.prototype.toLowerCase\<close> on the code units \<open>0x00..0xFF\<close>: the letters
  \<open>A..Z\<close> and the Latin-1 capitals \<open>0xC0..0xDE\<close> (without the multiplication sign
  \<open>0xD7\<close>) move up by 32.\<close>

definition lower_char :: "char \<Rightarrow> char" where
  "lower_char c =
     (let n = (of_char c :: nat)
      in if (65 \<le> n \<and> n \<le> 90) \<or> (192 \<le> n \<and> n \<le> 222 \<and> n \<noteq> 215)
         then char_of (n + 32) else c)"

definition toLowerCase :: "string \<Rightarrow> string" where
  "toLowerCase s = map lower_char s"

section \<open>Thrown values\<close>

text \<open>
  What a \<open>catch\<close> clause of the route can receive. The route reads
  \<open>error instanceof Error\<close> and \<open>error.message\<close>; the gateway reads
  \<open>err.status\<close>, \<open>err.response.status\<close>, \<open>err.error\<close> and \<open>err.response.data\<close>.
  As in the errors of the Anthropic SDK, a status that is present is a number, and
  \<open>error\<close>, \<open>response\<close> and \<open>data\<close> that are present are objects; \<open>None\<close> is an
  absent field, and for \<open>type\<close> and \<open>message\<close> of a body also one that is not a
  string. \<open>to_string\<close> is \<open>String(error)\<close>. A thrown value is never \<open>null\<close> or
  \<open>undefined\<close>: the SDKs and \<open>req.json()\<close> reject with error objects.
\<close>

record api_body =
  body_type :: "string option"
  body_message :: "string option"

record api_response =
  resp_status :: "nat option"
  resp_data :: "api_body option"

record thrown =
  instanceof_Error :: bool
  message :: string
  to_string :: string
  status :: "nat option"
  error_body :: "api_body option"
  response :: "api_response option"

text \<open>\<open>new Error(msg)\<close>.\<close>

definition Error :: "string \<Rightarrow> thrown" where
  "Error msg = \<lparr>instanceof_Error = True, message = msg, to_string = ''Error: '' @ msg,
                status = None, error_body = None, response = None\<rparr>"

text \<open>The value of the gateway's \<open>lastErr\<close> before any failure (\<open>null\<close>). The
  \<open>throw lastErr\<close> after the loop is the only place that could throw it.\<close>

definition thrown_null :: thrown where
  "thrown_null = \<lparr>instanceof_Error = False, message = [], to_string = ''null'',
                  status = None, error_body = None, response = None\<rparr>"

text \<open>\<open>error instanceof Error ? error.message : "Unknown error"\<close>.\<close>

definition errorMessage :: "thrown \<Rightarrow> string" where
  "errorMessage e = (if instanceof_Error e then message e else ''Unknown error'')"

text \<open>A status is truthy when it is a non-zero number.\<close>

definition truthy_status :: "nat option \<Rightarrow> bool" where
  "truthy_status s = (case s of None \<Rightarrow> False | Some n \<Rightarrow> n \<noteq> 0)"

section \<open>Model gateway: \<open>sendAnthropicMessages\<close>\<close>

record chat_message =
  role :: string
  content :: string

record content_block =
  block_type :: string
  block_text :: string

record llm_message =
  msg_content :: "content_block list"
  stop_reason :: "string option"

text \<open>
  The world outside the route, as far as the gateway touches it: the calls made to
  \<open>anthropic.messages.create\<close> (messages and \<open>max_tokens\<close>; the model name is a
  constant of the route), the delays passed to \<open>sleep\<close>, and the lines written with
  \<open>console.warn\<close>. The route adds the tool invocations (name and arguments,
  \<open>None\<close> for \<open>undefined\<close>) and the calls of \<open>client.close\<close>; the MCP client adds
  the calls of \<open>transport.close\<close>. What goes to \<open>console.log\<close> and
  \<open>console.error\<close> is not modelled.
\<close>

datatype json = JNull | JBool bool | JNum string | JStr string
  | JArr "json list" | JObj "(string \<times> json) list"

record world =
  api_calls :: "(chat_message list \<times> nat) list"
  sleeps :: "nat list"
  warns :: "string list"
  tool_calls :: "(string \<times> json option) list"
  closes :: nat
  transport_closes :: nat

definition world0 :: world where
  "world0 = \<lparr>api_calls = [], sleeps = [], warns = [], tool_calls = [], closes = 0,
              transport_closes = 0\<rparr>"

text \<open>The Anthropic API as an oracle: the reply to the \<open>k\<close>-th call (counted from 0)
  with the given messages and token ceiling is a thrown value or a message.\<close>

type_synonym anthropic = "nat \<Rightarrow> chat_message list \<Rightarrow> nat \<Rightarrow> thrown + llm_message"

definition isRateLimit :: "thrown \<Rightarrow> bool" where
  "isRateLimit err =
     (let st = (if truthy_status (status err) then status err
                else (case response err of None \<Rightarrow> None | Some r \<Rightarrow> resp_status r));
          body = (case error_body err of Some b \<Rightarrow> Some b
                  | None \<Rightarrow> (case response err of None \<Rightarrow> None | Some r \<Rightarrow> resp_data r))
      in st = Some 429
         \<or> (case body of None \<Rightarrow> False | Some b \<Rightarrow> body_type b = Some ''rate_limit_error'')
         \<or> (case body of None \<Rightarrow> False
             | Some b \<Rightarrow> (case body_message b of None \<Rightarrow> False
                          | Some m \<Rightarrow> str_includes (toLowerCase m) ''rate limit'')))"

definition retry_line :: "nat \<Rightarrow> nat \<Rightarrow> nat \<Rightarrow> string" where
  "retry_line delay attempt maxRetries =
     ''Rate limit detected from Anthropic, retrying in '' @ show_nat delay
       @ ''ms (attempt '' @ show_nat attempt @ ''/'' @ show_nat maxRetries @ '')''"

text \<open>The \<open>while (attempt <= maxRetries)\<close> loop, with \<open>attempt\<close> and \<open>lastErr\<close> as
  arguments. After the loop the source throws \<open>lastErr\<close>.\<close>

function send_loop ::
  "anthropic \<Rightarrow> chat_message list \<Rightarrow> nat \<Rightarrow> nat \<Rightarrow> nat \<Rightarrow> thrown option \<Rightarrow> world
     \<Rightarrow> (thrown + llm_message) \<times> world" where
  "send_loop create messages max_tokens maxRetries attempt lastErr w =
     (if attempt \<le> maxRetries then
        (let w1 = w\<lparr>api_calls := api_calls w @ [(messages, max_tokens)]\<rparr> in
         case create (length (api_calls w)) messages max_tokens of
           Inr m \<Rightarrow> (Inr m, w1)
         | Inl err \<Rightarrow>
             (if \<not> isRateLimit err \<or> attempt + 1 > maxRetries then (Inl err, w1)
              else
                (let delay = 500 * 2 ^ (attempt + 1 - 1) in
                 send_loop create messages max_tokens maxRetries (attempt + 1) (Some err)
                   (w1\<lparr>warns := warns w1 @ [retry_line delay (attempt + 1) maxRetries],
                       sleeps := sleeps w1 @ [delay]\<rparr>))))
      else (Inl (case lastErr of None \<Rightarrow> thrown_null | Some e \<Rightarrow> e), w))"
  by pat_completeness auto
termination
  by (relation "measure (\<lambda>(c, ms, mt, maxR, attempt, le, w). maxR + 1 - attempt)") auto

declare send_loop.simps [simp del]

definition sendAnthropicMessages ::
  "anthropic \<Rightarrow> chat_message list \<Rightarrow> nat \<Rightarrow> nat \<Rightarrow> world \<Rightarrow> (thrown + llm_message) \<times> world" where
  "sendAnthropicMessages create messages max_tokens maxRetries w =
     send_loop create messages max_tokens maxRetries 0 None w"

section \<open>\<open>JSON.parse\<close>\<close>

text \<open>
  \<open>JSON.parse\<close> belongs to the JavaScript runtime. It is modelled by a recursive-descent
  parser for the JSON grammar (ECMA-404): \<open>None\<close> stands for the \<open>SyntaxError\<close> it throws.
  \<^item> A number is kept as its literal (\<open>JNum\<close>), not as the double it denotes.
  \<^item> An object is the list of its properties in the order \<open>Object.keys\<close> reports them:
    array-index keys first, ascending, then the other keys in order of first insertion;
    a repeated key keeps its place and takes the last value.
  \<^item> An escape \<open>\uXXXX\<close> above \<open>00FF\<close> has no value in the string type of the model;
    the parser answers \<open>None\<close> there, and such texts are outside the model.
  The parser recurses on fuel; \<open>JSON_parse\<close> supplies as much as a text of that
  length can use (lemma \<open>JSON_parse_fuel\<close>: more fuel gives the same result).
\<close>

definition DQ :: char where "DQ = CHR 0x22"
definition BSL :: char where "BSL = CHR 0x5C"

definition json_ws :: "char \<Rightarrow> bool" where
  "json_ws c = (c = CHR '' '' \<or> c = CHR 0x09 \<or> c = CHR 0x0A \<or> c = CHR 0x0D)"

definition is_digit :: "char \<Rightarrow> bool" where
  "is_digit c = (48 \<le> (of_char c :: nat) \<and> (of_char c :: nat) \<le> 57)"

definition hex_val :: "char \<Rightarrow> nat option" where
  "hex_val c =
     (let n = (of_char c :: nat)
      in if 48 \<le> n \<and> n \<le> 57 then Some (n - 48)
         else if 65 \<le> n \<and> n \<le> 70 then Some (n - 55)
         else if 97 \<le> n \<and> n \<le> 102 then Some (n - 87)
         else None)"

definition hex4 :: "string \<Rightarrow> nat option" where
  "hex4 s =
     (case map hex_val s of
        [Some a, Some b, Some c, Some d] \<Rightarrow> Some (((a * 16 + b) * 16 + c) * 16 + d)
      | _ \<Rightarrow> None)"

definition cons_fst :: "'a \<Rightarrow> ('a list \<times> 'b) option \<Rightarrow> ('a list \<times> 'b) option" where
  "cons_fst c r = (case r of None \<Rightarrow> None | Some (s, rest) \<Rightarrow> Some (c # s, rest))"

text \<open>The characters of a string literal after its opening quote: the decoded string
  and the text after the closing quote.\<close>

fun parse_chars :: "string \<Rightarrow> (string \<times> string) option" where
  "parse_chars [] = None"
| "parse_chars (c # cs) =
     (if c = DQ then Some ([], cs)
      else if c = BSL then
        (case cs of
           [] \<Rightarrow> None
         | e # r \<Rightarrow>
             if e = DQ \<or> e = BSL \<or> e = CHR ''/'' then cons_fst e (parse_chars r)
             else if e = CHR ''b'' then cons_fst (CHR 0x08) (parse_chars r)
             else if e = CHR ''f'' then cons_fst (CHR 0x0C) (parse_chars r)
             else if e = CHR ''n'' then cons_fst (CHR 0x0A) (parse_chars r)
             else if e = CHR ''r'' then cons_fst (CHR 0x0D) (parse_chars r)
             else if e = CHR ''t'' then cons_fst (CHR 0x09) (parse_chars r)
             else if e = CHR ''u'' then
               (case hex4 (take 4 r) of
                  None \<Rightarrow> None
                | Some n \<Rightarrow> if n < 256 then cons_fst (char_of n) (parse_chars (drop 4 r)) else None)
             else None)
      else if (of_char c :: nat) < 32 then None
      else cons_fst c (parse_chars cs))"

text \<open>The number grammar: \<open>-? (0 | [1-9][0-9]*) (. [0-9]+)? ([eE] [+-]? [0-9]+)?\<close>.\<close>

definition lex_int :: "string \<Rightarrow> (string \<times> string) option" where
  "lex_int s =
     (case s of
        [] \<Rightarrow> None
      | c # r \<Rightarrow>
          if c = CHR ''0'' then Some ([c], r)
          else if is_digit c then Some (c # takeWhile is_digit r, dropWhile is_digit r)
          else None)"

definition lex_frac :: "string \<Rightarrow> (string \<times> string) option" where
  "lex_frac s =
     (case s of
        [] \<Rightarrow> Some ([], [])
      | c # r \<Rightarrow>
          if c = CHR ''.'' then
            (if takeWhile is_digit r = [] then None
             else Some (c # takeWhile is_digit r, dropWhile is_digit r))
          else Some ([], s))"

definition lex_exp :: "string \<Rightarrow> (string \<times> string) option" where
  "lex_exp s =
     (case s of
        [] \<Rightarrow> Some ([], [])
      | c # r \<Rightarrow>
          if c = CHR ''e'' \<or> c = CHR ''E'' then
            (let sgn = (case r of [] \<Rightarrow> [] | d # _ \<Rightarrow> if d = CHR ''+'' \<or> d = CHR ''-'' then [d] else []);
                 r2 = drop (length sgn) r
             in if takeWhile is_digit r2 = [] then None
                else Some (c # sgn @ takeWhile is_digit r2, dropWhile is_digit r2))
          else Some ([], s))"

definition lex_number :: "string \<Rightarrow> (string \<times> string) option" where
  "lex_number s =
     (let neg = (case s of [] \<Rightarrow> [] | c # _ \<Rightarrow> if c = CHR ''-'' then [c] else []) in
      case lex_int (drop (length neg) s) of
        None \<Rightarrow> None
      | Some (i, r1) \<Rightarrow>
          (case lex_frac r1 of
             None \<Rightarrow> None
           | Some (f, r2) \<Rightarrow>
               (case lex_exp r2 of
                  None \<Rightarrow> None
                | Some (e, r3) \<Rightarrow> Some (neg @ i @ f @ e, r3))))"

text \<open>Property order of a JavaScript object.\<close>

fun digits_less :: "string \<Rightarrow> string \<Rightarrow> bool" where
  "digits_less (a # as) (b # bs) =
     ((of_char a :: nat) < of_char b \<or> (a = b \<and> digits_less as bs))"
| "digits_less _ _ = False"

text \<open>Numeric order of two canonical digit strings.\<close>

definition index_less :: "string \<Rightarrow> string \<Rightarrow> bool" where
  "index_less a b = (length a < length b \<or> (length a = length b \<and> digits_less a b))"

text \<open>An array index is a canonical numeric string below \<open>2^32 - 1\<close>.\<close>

definition is_index_key :: "string \<Rightarrow> bool" where
  "is_index_key k =
     (k \<noteq> [] \<and> list_all is_digit k \<and> (k = ''0'' \<or> hd k \<noteq> CHR ''0'')
      \<and> index_less k ''4294967295'')"

fun insert_index :: "string \<Rightarrow> json \<Rightarrow> (string \<times> json) list \<Rightarrow> (string \<times> json) list" where
  "insert_index k v [] = [(k, v)]"
| "insert_index k v ((k', v') # kvs) =
     (if is_index_key k' \<and> index_less k' k then (k', v') # insert_index k v kvs
      else (k, v) # (k', v') # kvs)"

definition obj_put :: "string \<Rightarrow> json \<Rightarrow> (string \<times> json) list \<Rightarrow> (string \<times> json) list" where
  "obj_put k v kvs =
     (if k \<in> set (map fst kvs) then map (\<lambda>(k', v'). if k' = k then (k', v) else (k', v')) kvs
      else if is_index_key k then insert_index k v kvs
      else kvs @ [(k, v)])"

definition skip_ws :: "string \<Rightarrow> string" where
  "skip_ws s = dropWhile json_ws s"

text \<open>\<open>parse_value\<close> reads one value (leading white space included); \<open>parse_elems\<close>
  reads the elements of an array after its \<open>[\<close>, \<open>parse_members\<close> the properties of an
  object after its \<open>{\<close>; each returns the text that follows.\<close>

fun parse_value :: "nat \<Rightarrow> string \<Rightarrow> (json \<times> string) option"
  and parse_elems :: "nat \<Rightarrow> json list \<Rightarrow> string \<Rightarrow> (json \<times> string) option"
  and parse_members :: "nat \<Rightarrow> (string \<times> json) list \<Rightarrow> string \<Rightarrow> (json \<times> string) option" where
  "parse_value 0 s = None"
| "parse_value (Suc n) s =
     (case skip_ws s of
        [] \<Rightarrow> None
      | c # r \<Rightarrow>
          if c = CHR ''{'' then
            (case skip_ws r of
               [] \<Rightarrow> None
             | d # r' \<Rightarrow> if d = CHR ''}'' then Some (JObj [], r') else parse_members n [] (d # r'))
          else if c = CHR ''['' then
            (case skip_ws r of
               [] \<Rightarrow> None
             | d # r' \<Rightarrow> if d = CHR '']'' then Some (JArr [], r') else parse_elems n [] (d # r'))
          else if c = DQ then
            (case parse_chars r of None \<Rightarrow> None | Some (str, r') \<Rightarrow> Some (JStr str, r'))
          else if startsWith (c # r) ''true'' then Some (JBool True, drop 4 (c # r))
          else if startsWith (c # r) ''false'' then Some (JBool False, drop 5 (c # r))
          else if startsWith (c # r) ''null'' then Some (JNull, drop 4 (c # r))
          else (case lex_number (c # r) of None \<Rightarrow> None | Some (lit, r') \<Rightarrow> Some (JNum lit, r')))"
| "parse_elems 0 acc s = None"
| "parse_elems (Suc n) acc s =
     (case parse_value n s of
        None \<Rightarrow> None
      | Some (v, r) \<Rightarrow>
          (case skip_ws r of
             [] \<Rightarrow> None
           | c # r' \<Rightarrow>
               if c = CHR '','' then parse_elems n (acc @ [v]) r'
               else if c = CHR '']'' then Some (JArr (acc @ [v]), r')
               else None))"
| "parse_members 0 acc s = None"
| "parse_members (Suc n) acc s =
     (case skip_ws s of
        [] \<Rightarrow> None
      | q # r \<Rightarrow>
          if q \<noteq> DQ then None
          else
            (case parse_chars r of
               None \<Rightarrow> None
             | Some (k, r1) \<Rightarrow>
                 (case skip_ws r1 of
                    [] \<Rightarrow> None
                  | c # r2 \<Rightarrow>
                      if c \<noteq> CHR '':'' then None
                      else
                        (case parse_value n r2 of
                           None \<Rightarrow> None
                         | Some (v, r3) \<Rightarrow>
                             (case skip_ws r3 of
                                [] \<Rightarrow> None
                              | d # r4 \<Rightarrow>
                                  if d = CHR '','' then parse_members n (obj_put k v acc) r4
                                  else if d = CHR ''}'' then Some (JObj (obj_put k v acc), r4)
                                  else None)))))"

definition JSON_parse :: "string \<Rightarrow> json option" where
  "JSON_parse s =
     (case parse_value (2 * length s + 2) s of
        None \<Rightarrow> None
      | Some (v, r) \<Rightarrow> if skip_ws r = [] then Some v else None)"

section \<open>Plan parser: \<open>parseClaudeResponse\<close>\<close>

text \<open>
  White space of \<open>\s\<close> and of \<open>trim()\<close> among the code units \<open>0x00..0xFF\<close>: tab, line
  feed, vertical tab, form feed, carriage return, space and no-break space.
\<close>

definition js_space :: "char \<Rightarrow> bool" where
  "js_space c =
     (let n = (of_char c :: nat) in (9 \<le> n \<and> n \<le> 13) \<or> n = 32 \<or> n = 160)"

definition trim :: "string \<Rightarrow> string" where
  "trim s = rev (dropWhile js_space (rev (dropWhile js_space s)))"

text \<open>\<open>Array.prototype.join\<close> on strings.\<close>

fun join :: "string \<Rightarrow> string list \<Rightarrow> string" where
  "join sep [] = []"
| "join sep [x] = x"
| "join sep (x # y # ys) = x @ sep @ join sep (y # ys)"

subsection \<open>The object pattern \<open>/\{[\s\S]*?\}(?=\s*,\s*\{|\s*\])/g\<close>\<close>

text \<open>The lookahead \<open>(?=\s*,\s*\{|\s*\])\<close> at the text after a closing brace.\<close>

definition lookahead :: "string \<Rightarrow> bool" where
  "lookahead s =
     (case dropWhile js_space s of
        [] \<Rightarrow> False
      | c # r \<Rightarrow>
          (c = CHR '','' \<and> (case dropWhile js_space r of [] \<Rightarrow> False | d # _ \<Rightarrow> d = CHR ''{''))
          \<or> c = CHR '']'')"

text \<open>The lazy part \<open>[\s\S]*?\}\<close> after an opening brace: the shortest run that ends
  in a closing brace at which the lookahead holds, and the text after it.\<close>

fun lazy_body :: "string \<Rightarrow> (string \<times> string) option" where
  "lazy_body [] = None"
| "lazy_body (c # cs) =
     (if c = CHR ''}'' \<and> lookahead cs then Some ([c], cs) else cons_fst c (lazy_body cs))"

text \<open>\<open>responseText.match(/.../g)\<close>: all matches from left to right, each search
  starting where the previous match ended; a position at which the pattern does not
  match is passed over.\<close>

function match_objects :: "string \<Rightarrow> string list" where
  "match_objects [] = []"
| "match_objects (c # cs) =
     (if c = CHR ''{'' then
        (case lazy_body cs of
           None \<Rightarrow> match_objects cs
         | Some (m, r) \<Rightarrow> (c # m) # match_objects r)
      else match_objects cs)"
  by pat_completeness auto
termination
proof (relation "measure length")
  fix c :: char and cs :: string and x2 :: "string \<times> string" and m r :: string
  have shorter: "length r' \<le> length s" if "lazy_body s = Some (m', r')" for s m' r'
    using that
    by (induction s arbitrary: m' r') (auto simp: cons_fst_def split: if_splits option.splits)
  assume "lazy_body cs = Some x2" and "(m, r) = x2"
  then show "(r, c # cs) \<in> measure length"
    using shorter [of cs m r] by simp
qed auto

subsection \<open>The fence pattern \<open>/```(?:json)?\s*([\s\S]*?)\s*```/\<close>\<close>

text \<open>The text before and after the first \<open>```\<close>.\<close>

fun find_fence :: "string \<Rightarrow> (string \<times> string) option" where
  "find_fence [] = None"
| "find_fence (c # cs) =
     (if startsWith (c # cs) ''```'' then Some ([], drop 3 (c # cs))
      else cons_fst c (find_fence cs))"

text \<open>
  \<open>responseText.match(codeBlockRegex)\<close>, reduced to its group 1 (\<open>None\<close>: no match).
  The match starts at the leftmost \<open>```\<close>; \<open>json\<close> and the white space after it are
  taken greedily; the lazy group ends where \<open>\s*```\<close> first matches, that is at the
  white space in front of the next \<open>```\<close>. When no \<open>```\<close> follows, giving back
  \<open>json\<close> or white space, or starting at a later position, finds none either.
\<close>

definition code_block :: "string \<Rightarrow> string option" where
  "code_block s =
     (case find_fence s of
        None \<Rightarrow> None
      | Some (_, a) \<Rightarrow>
          (let a1 = (if startsWith a ''json'' then drop 4 a else a);
               a2 = dropWhile js_space a1
           in case find_fence a2 of
                None \<Rightarrow> None
              | Some (inner, _) \<Rightarrow> Some (rev (dropWhile js_space (rev inner)))))"

text \<open>\<open>jsonString.replace(/,\s*$/, "")\<close>: a comma with only white space after it, up
  to the end of the text, is removed together with that white space.\<close>

definition strip_trailing_comma :: "string \<Rightarrow> string" where
  "strip_trailing_comma s =
     (case dropWhile js_space (rev s) of
        [] \<Rightarrow> s
      | c # r \<Rightarrow> if c = CHR '','' then rev r else s)"

text \<open>The error \<open>parseClaudeResponse\<close> throws is the \<open>SyntaxError\<close> of
  \<open>JSON.parse(jsonString)\<close>; it is identified by that text, its message being the
  engine's.\<close>

datatype parse_error = SyntaxError string

definition isTruncated :: "string \<Rightarrow> bool" where
  "isTruncated responseText =
     (\<not> endsWith (trim responseText) '']'' \<and> str_includes responseText ''['')"

definition parse_direct :: "string \<Rightarrow> parse_error + json" where
  "parse_direct responseText =
     (let jsonString = (case code_block responseText of
                          Some g \<Rightarrow> trim g
                        | None \<Rightarrow> trim responseText)
      in case JSON_parse jsonString of
           Some parsed \<Rightarrow> Inr parsed
         | None \<Rightarrow>
             (if str_includes jsonString ''['' \<and> \<not> endsWith (trim jsonString) '']'' then
                (case JSON_parse (strip_trailing_comma jsonString @ '']'') of
                   Some parsed \<Rightarrow> Inr parsed
                 | None \<Rightarrow> Inl (SyntaxError jsonString))
              else Inl (SyntaxError jsonString)))"

definition parseClaudeResponse :: "string \<Rightarrow> parse_error + json" where
  "parseClaudeResponse responseText =
     (if isTruncated responseText \<and> match_objects responseText \<noteq> [] then
        (case JSON_parse (''['' @ join '','' (match_objects responseText) @ '']'') of
           Some parsed \<Rightarrow> Inr parsed
         | None \<Rightarrow> parse_direct responseText)
      else parse_direct responseText)"

section \<open>MCP client: \<open>createSitecoreMCPClient\<close>\<close>

text \<open>A tool as the MCP server lists it. \<open>None\<close> is an absent property.\<close>

record tool =
  tool_name :: string
  tool_description :: "string option"
  tool_inputSchema :: "json option"
  tool_parameters :: "json option"

text \<open>Truthiness of a JSON value: \<open>null\<close>, \<open>false\<close>, zero and the empty string are
  falsy. A number literal is zero when all digits of its mantissa are \<open>0\<close> (literals
  that underflow to zero are outside the model).\<close>

definition zero_literal :: "string \<Rightarrow> bool" where
  "zero_literal lit =
     list_all (\<lambda>c. c = CHR ''0'' \<or> c = CHR ''-'' \<or> c = CHR ''.'')
       (takeWhile (\<lambda>c. c \<noteq> CHR ''e'' \<and> c \<noteq> CHR ''E'') lit)"

fun truthy :: "json \<Rightarrow> bool" where
  "truthy JNull = False"
| "truthy (JBool b) = b"
| "truthy (JNum lit) = (\<not> zero_literal lit)"
| "truthy (JStr s) = (s \<noteq> [])"
| "truthy (JArr xs) = True"
| "truthy (JObj kvs) = True"

definition truthy_opt :: "json option \<Rightarrow> bool" where
  "truthy_opt v = (case v of None \<Rightarrow> False | Some j \<Rightarrow> truthy j)"

text \<open>Reading a property that JSON data can carry (\<open>tool\<close>, \<open>parameters\<close>,
  \<open>reasoning\<close>, \<open>isError\<close>, \<open>properties\<close>) from a value other than \<open>null\<close>: only
  an object has it; \<open>None\<close> is \<open>undefined\<close>.\<close>

fun get_prop :: "json \<Rightarrow> string \<Rightarrow> json option" where
  "get_prop (JObj kvs) k = map_of kvs k"
| "get_prop _ k = None"

text \<open>\<open>Object.keys\<close> of a truthy value.\<close>

fun Object_keys :: "json \<Rightarrow> string list" where
  "Object_keys (JObj kvs) = map fst kvs"
| "Object_keys (JArr xs) = map show_nat [0..<length xs]"
| "Object_keys (JStr s) = map show_nat [0..<length s]"
| "Object_keys _ = []"

text \<open>What \<open>getToolSchema\<close> returns: the tool's own schema, or the object
  \<open>{name, description, parameters}\<close> built around an inferred parameter shape.\<close>

datatype schema = Given json | Inferred string "string option" json

definition string_prop :: json where
  "string_prop = JObj [(''type'', JStr ''string'')]"

definition parameterPatterns :: "(string \<times> json) list" where
  "parameterPatterns =
     [(''item-service-get-item-by-path'',
       JObj [(''type'', JStr ''object''),
             (''properties'', JObj [(''path'', string_prop)]),
             (''required'', JArr [JStr ''path''])]),
      (''item-service-edit-item'',
       JObj [(''type'', JStr ''object''),
             (''properties'',
              JObj [(''data'',
                JObj [(''type'', JStr ''object''),
                      (''properties'',
                       JObj [(''ItemID'', string_prop),
                             (''Fields'',
                              JObj [(''type'', JStr ''array''),
                                    (''items'',
                                     JObj [(''type'', JStr ''object''),
                                           (''properties'',
                                            JObj [(''Name'', string_prop),
                                                  (''Value'', string_prop)])])])]),
                      (''required'', JArr [JStr ''ItemID'', JStr ''Fields''])])]),
             (''required'', JArr [JStr ''data''])]),
      (''item-service-update-item-field'',
       JObj [(''type'', JStr ''object''),
             (''properties'',
              JObj [(''itemId'', string_prop),
                    (''fieldName'', string_prop),
                    (''fieldValue'', string_prop)]),
             (''required'', JArr [JStr ''itemId'', JStr ''fieldName'', JStr ''fieldValue''])])]"

definition empty_schema :: json where
  "empty_schema =
     JObj [(''type'', JStr ''object''), (''properties'', JObj []), (''required'', JArr [])]"

definition inferParametersFromToolName :: "string \<Rightarrow> json" where
  "inferParametersFromToolName toolName =
     (case find (\<lambda>(pattern, sch). str_includes toolName pattern \<or> str_includes pattern toolName)
             parameterPatterns of
        Some (pattern, sch) \<Rightarrow> sch
      | None \<Rightarrow> empty_schema)"

text \<open>The request body of the route, as \<open>components/IAgent\<close> sends it.\<close>

record page_context =
  pageInfo_id :: "string option"

record history_message =
  h_role :: string
  h_content :: string
  h_timestamp :: string

record request =
  prompt :: string
  pageContext :: "page_context option"
  conversationHistory :: "history_message list option"

text \<open>
  Everything the two modules call and do not define: the Anthropic API, the MCP server
  behind the SDK client (\<open>connect\<close>, \<open>listTools\<close>, \<open>callTool\<close>; \<open>None\<close> and \<open>Inr\<close>
  are the calls that resolve), the request body (\<open>req.json()\<close>), and the runtime's
  \<open>String\<close>, \<open>JSON.stringify\<close>, \<open>JSON.stringify(_, null, 2)\<close> and error messages.
  The \<open>k\<close>-th tool call (counted from 0) is answered from its name and arguments.
\<close>

record env =
  anthropic_create :: anthropic
  mcp_connect :: "thrown option"
  mcp_listTools :: "thrown + tool list"
  mcp_callTool :: "nat \<Rightarrow> string \<Rightarrow> json option \<Rightarrow> thrown + json"
  req_json :: "thrown + request"
  String_of :: "json \<Rightarrow> string"
  JSON_stringify :: "json \<Rightarrow> string"
  JSON_stringify2 :: "json \<Rightarrow> string"
  syntax_error_message :: "string \<Rightarrow> string"
  type_error_message :: "string \<Rightarrow> string"

text \<open>A \<open>TypeError\<close> of the runtime; the argument names the failing access.\<close>

definition TypeError :: "env \<Rightarrow> string \<Rightarrow> thrown" where
  "TypeError env what =
     \<lparr>instanceof_Error = True, message = type_error_message env what,
      to_string = ''TypeError: '' @ type_error_message env what,
      status = None, error_body = None, response = None\<rparr>"

text \<open>A value inside a template literal.\<close>

definition to_text :: "env \<Rightarrow> json option \<Rightarrow> string" where
  "to_text env v =
     (case v of None \<Rightarrow> ''undefined'' | Some (JStr s) \<Rightarrow> s | Some j \<Rightarrow> String_of env j)"

definition stringify_text :: "env \<Rightarrow> json option \<Rightarrow> string" where
  "stringify_text env v = (case v of None \<Rightarrow> ''undefined'' | Some j \<Rightarrow> JSON_stringify env j)"

text \<open>The client object: the tool list fetched at connection time is captured by its
  closures; \<open>callTool\<close> and \<open>close\<close> go to the server.\<close>

record client =
  toolsList :: "tool list"

definition connection_failed :: "thrown \<Rightarrow> world \<Rightarrow> (thrown + client) \<times> world" where
  "connection_failed e w =
     (Inl (Error (''MCP connection failed: ''
                  @ (if instanceof_Error e then message e else to_string e))),
      w\<lparr>transport_closes := transport_closes w + 1\<rparr>)"

definition createSitecoreMCPClient :: "env \<Rightarrow> world \<Rightarrow> (thrown + client) \<times> world" where
  "createSitecoreMCPClient env w =
     (case mcp_connect env of
        Some e \<Rightarrow> connection_failed e w
      | None \<Rightarrow>
          (case mcp_listTools env of
             Inl e \<Rightarrow> connection_failed e w
           | Inr ts \<Rightarrow> (Inr \<lparr>toolsList = ts\<rparr>, w)))"

definition listTools :: "client \<Rightarrow> tool list" where
  "listTools c = toolsList c"

definition getToolSchema :: "client \<Rightarrow> string \<Rightarrow> thrown + schema" where
  "getToolSchema c toolName =
     (case find (\<lambda>t. tool_name t = toolName) (toolsList c) of
        None \<Rightarrow> Inl (Error (''Herramienta '' @ toolName @ '' no encontrada''))
      | Some t \<Rightarrow>
          (if truthy_opt (tool_inputSchema t) then
             (case tool_inputSchema t of Some j \<Rightarrow> Inr (Given j)
              | None \<Rightarrow> Inr (Inferred (tool_name t) (tool_description t)
                                (inferParametersFromToolName (tool_name t))))
           else if truthy_opt (tool_parameters t) then
             (case tool_parameters t of Some j \<Rightarrow> Inr (Given j)
              | None \<Rightarrow> Inr (Inferred (tool_name t) (tool_description t)
                                (inferParametersFromToolName (tool_name t))))
           else Inr (Inferred (tool_name t) (tool_description t)
                       (inferParametersFromToolName (tool_name t)))))"

definition callTool :: "env \<Rightarrow> string \<Rightarrow> json option \<Rightarrow> world \<Rightarrow> (thrown + json) \<times> world" where
  "callTool env name arguments w =
     (mcp_callTool env (length (tool_calls w)) name arguments,
      w\<lparr>tool_calls := tool_calls w @ [(name, arguments)]\<rparr>)"

section \<open>Tool catalog: \<open>buildToolsDescription\<close>\<close>

text \<open>\<open>tool.schema.properties ? Object.keys(tool.schema.properties).slice(0, 5) : []\<close>
  under \<open>if (tool.schema)\<close>; the schema is \<open>None\<close> when fetching it failed.\<close>

definition propNames :: "schema option \<Rightarrow> string list" where
  "propNames s =
     (case s of
        Some (Given j) \<Rightarrow>
          (if truthy j then
             (case get_prop j ''properties'' of
                None \<Rightarrow> []
              | Some p \<Rightarrow> if truthy p then take 5 (Object_keys p) else [])
           else [])
      | _ \<Rightarrow> [])"

definition describe_tool :: "tool \<times> schema option \<Rightarrow> string" where
  "describe_tool ts =
     (let short = (case tool_description (fst ts) of None \<Rightarrow> [] | Some d \<Rightarrow> take 80 d);
          desc = ''- '' @ tool_name (fst ts) @ '': ''
                   @ (if short = [] then ''No description'' else short)
      in if length (propNames (snd ts)) > 0
         then desc @ '' ('' @ join '', '' (propNames (snd ts)) @ '')''
         else desc)"

definition buildToolsDescription :: "(tool \<times> schema option) list \<Rightarrow> nat \<Rightarrow> nat \<Rightarrow> string" where
  "buildToolsDescription toolsWithSchemas maxTools maxChars =
     (let parts = map describe_tool (take maxTools toolsWithSchemas);
          result = join NL parts
                     @ (if length toolsWithSchemas > maxTools
                        then NL @ ''...'' @ show_nat (length toolsWithSchemas - maxTools)
                               @ '' more tools''
                        else [])
      in if length result > maxChars then take maxChars result @ ''...'' else result)"

section \<open>Orchestrator: \<open>POST\<close>\<close>

subsection \<open>Steps 2 to 6: tools, request, messages\<close>

text \<open>Step 3: a tool whose schema cannot be fetched is kept with a \<open>null\<close> schema.\<close>

definition discover :: "client \<Rightarrow> (tool \<times> schema option) list" where
  "discover c =
     map (\<lambda>t. (t, case getToolSchema c (tool_name t) of Inr s \<Rightarrow> Some s | Inl e \<Rightarrow> None))
       (listTools c)"

text \<open>\<open>pageContext?.pageInfo?.id\<close> when it is truthy.\<close>

definition page_id :: "page_context option \<Rightarrow> string option" where
  "page_id pc =
     (case pc of
        None \<Rightarrow> None
      | Some c \<Rightarrow> (case pageInfo_id c of None \<Rightarrow> None
                   | Some i \<Rightarrow> if i = [] then None else Some i))"

definition page_id_text :: "page_context option \<Rightarrow> string" where
  "page_id_text pc = (case page_id pc of None \<Rightarrow> ''unknown'' | Some i \<Rightarrow> i)"

definition request_logs :: "request \<Rightarrow> string list" where
  "request_logs req =
     [''Prompt received: '' @ [DQ] @ prompt req @ [DQ]]
     @ (case pageContext req of
          None \<Rightarrow> []
        | Some c \<Rightarrow> [''Page context received with ID: '' @ page_id_text (pageContext req)])
     @ [''Conversation history length: ''
          @ show_nat (case conversationHistory req of None \<Rightarrow> 0 | Some h \<Rightarrow> length h)]"

text \<open>\<open>conversationHistory.slice(-10)\<close> under
  \<open>if (conversationHistory && conversationHistory.length > 0)\<close>.\<close>

definition recentHistory :: "history_message list option \<Rightarrow> history_message list" where
  "recentHistory h =
     (case h of
        None \<Rightarrow> []
      | Some hs \<Rightarrow> if length hs > 0 then drop (length hs - 10) hs else [])"

definition planning_prompt :: "string \<Rightarrow> string \<Rightarrow> string \<Rightarrow> string" where
  \<open>planning_prompt toolsDescription pageId promptText =
     ''You are an AI agent specialized in Sitecore. You have access to the following tools:'' @
     NL @
     NL @
     toolsDescription @
     NL @
     NL @
     ''CRITICAL INSTRUCTIONS:'' @
     NL @
     ''1. Analyze the user request in the context of our ongoing conversation and create a DIRECT EXECUTION plan'' @
     NL @
     ''2. DO NOT ask for confirmations or additional information - USE THE CONTEXT FROM PREVIOUS MESSAGES'' @
     NL @
     ''3. For each step, provide the exact tool name and required parameters'' @
     NL @
     ''4. USE EXACT parameter names and structure as shown in each tool's description'' @
     NL @
     ''5. If page context is relevant (current page ID: '' @
     pageId @
     ''), use it appropriately'' @
     NL @
     ''6. KEEP PowerShell scripts SHORT and SIMPLE - use minimal code'' @
     NL @
     ''7. If the user is responding to a previous question, CONTINUE WITH THE EXECUTION based on their response'' @
     NL @
     ''8. Respond ONLY with a VALID JSON array of objects. Do NOT include any other text, markdown, or explanations.'' @
     NL @
     ''9. Use this EXACT format with double quotes:'' @
     NL @
     NL @
     ''['' @
     NL @
     ''  {'' @
     NL @
     ''    "tool": "tool-name-step-1",'' @
     NL @
     ''    "parameters": {"param1": "value1", "param2": "value2"},'' @
     NL @
     ''    "reasoning": "Brief explanation"'' @
     NL @
     ''  }'' @
     NL @
     '']'' @
     NL @
     NL @
     ''IMPORTANT: Based on the conversation history, continue directly without repeating previous steps or asking for confirmation.'' @
     NL @
     NL @
     ''USER REQUEST: '' @
     promptText\<close>

definition build_messages :: "string \<Rightarrow> request \<Rightarrow> chat_message list" where
  "build_messages toolsDescription req =
     map (\<lambda>msg. \<lparr>role = h_role msg, content = h_content msg\<rparr>)
       (recentHistory (conversationHistory req))
     @ [\<lparr>role = ''user'',
         content = planning_prompt toolsDescription (page_id_text (pageContext req))
                     (prompt req)\<rparr>]"

definition history_logs :: "request \<Rightarrow> string list" where
  "history_logs req =
     (case conversationHistory req of
        None \<Rightarrow> []
      | Some hs \<Rightarrow>
          if length hs > 0
          then [''Added '' @ show_nat (length (recentHistory (Some hs)))
                  @ '' previous messages to context'']
          else [])"

subsection \<open>Steps 7 and 8: the plan\<close>

text \<open>\<open>planMessage.content[0].type === "text"\<close>; reading \<open>type\<close> of a missing first
  block is a \<open>TypeError\<close>.\<close>

definition plan_text :: "env \<Rightarrow> llm_message \<Rightarrow> thrown + string" where
  "plan_text env m =
     (case msg_content m of
        [] \<Rightarrow> Inl (TypeError env ''planMessage.content[0].type'')
      | b # bs \<Rightarrow>
          if block_type b = ''text'' then Inr (block_text b)
          else Inl (Error (''Unsupported content type: '' @ block_type b)))"

definition fallback_plan :: "page_context option \<Rightarrow> json" where
  "fallback_plan pc =
     JArr [JObj [(''tool'', JStr ''content_items.list''),
                 (''parameters'',
                  JObj ([(''page'', JNum ''1''), (''pageSize'', JNum ''10'')]
                        @ (case page_id pc of None \<Rightarrow> [] | Some i \<Rightarrow> [(''itemId'', JStr i)]))),
                 (''reasoning'',
                  JStr ''Fallback: Basic content listing to understand structure'')]]"

text \<open>\<open>actionPlan.length\<close> inside the success line, for a parsed value other than
  \<open>null\<close>.\<close>

definition length_text :: "env \<Rightarrow> json \<Rightarrow> string" where
  "length_text env plan =
     (case plan of
        JArr xs \<Rightarrow> show_nat (length xs)
      | JStr s \<Rightarrow> show_nat (length s)
      | JObj kvs \<Rightarrow> to_text env (map_of kvs ''length'')
      | _ \<Rightarrow> ''undefined'')"

definition use_fallback :: "page_context option \<Rightarrow> string \<Rightarrow> string list \<Rightarrow> json \<times> string list" where
  "use_fallback pc msg logs =
     (fallback_plan pc,
      logs @ [''Error parsing Claude plan: '' @ msg, ''Creating fallback plan...''])"

text \<open>Step 8. The \<open>try\<close> holds the parser call and the success line, so the
  \<open>TypeError\<close> of \<open>actionPlan.length\<close> on a parsed \<open>null\<close> also ends in the fallback.\<close>

definition parse_stage :: "env \<Rightarrow> page_context option \<Rightarrow> string \<Rightarrow> string list \<Rightarrow> json \<times> string list" where
  "parse_stage env pc planResponse logs =
     (case parseClaudeResponse planResponse of
        Inl (SyntaxError txt) \<Rightarrow> use_fallback pc (syntax_error_message env txt) logs
      | Inr actionPlan \<Rightarrow>
          (if actionPlan = JNull
           then use_fallback pc (type_error_message env ''actionPlan.length'') logs
           else (actionPlan,
                 logs @ [''Action plan parsed successfully with ''
                           @ length_text env actionPlan @ '' steps''])))"

subsection \<open>Step 9: the executor\<close>

record exec =
  ex_error :: "thrown option"
  ex_logs :: "string list"
  ex_results :: "json list"
  ex_world :: world

text \<open>The inner \<open>catch\<close>: the audit line and the error thrown on to the route's
  \<open>catch\<close>.\<close>

definition tool_failed ::
  "env \<Rightarrow> json option \<Rightarrow> thrown \<Rightarrow> string list \<Rightarrow> json list \<Rightarrow> world \<Rightarrow> exec" where
  "tool_failed env tool e logs results w =
     (let line = ''Error executing tool '' @ to_text env tool @ '': '' @ errorMessage e
      in \<lparr>ex_error = Some (Error line), ex_logs = logs @ [line], ex_results = results,
          ex_world = w\<rparr>)"

text \<open>The three audit lines that open a step.\<close>

definition step_header :: "env \<Rightarrow> nat \<Rightarrow> nat \<Rightarrow> json \<Rightarrow> string list" where
  "step_header env nsteps index action =
     [''Executing step '' @ show_nat (index + 1) @ ''/'' @ show_nat nsteps @ '': ''
        @ to_text env (get_prop action ''tool''),
      ''Parameters: '' @ stringify_text env (get_prop action ''parameters''),
      ''Reasoning: '' @ to_text env (get_prop action ''reasoning'')]"

text \<open>One pass of the loop body, for the action at \<open>index\<close> of a plan of \<open>nsteps\<close>
  steps.\<close>

definition run_step ::
  "env \<Rightarrow> client \<Rightarrow> nat \<Rightarrow> nat \<Rightarrow> json \<Rightarrow> string list \<Rightarrow> json list \<Rightarrow> world \<Rightarrow> exec" where
  "run_step env c nsteps index action logs results w =
     (if action = JNull then
        \<lparr>ex_error = Some (TypeError env ''action.tool''), ex_logs = logs,
         ex_results = results, ex_world = w\<rparr>
      else
        (let tool = get_prop action ''tool'';
             step = show_nat (index + 1);
             logs1 = logs @ step_header env nsteps index action
         in case tool of
              Some (JStr name) \<Rightarrow>
                (if name \<in> set (map tool_name (listTools c)) then
                   (case callTool env name (get_prop action ''parameters'') w of
                      (Inl e, w1) \<Rightarrow> tool_failed env tool e logs1 results w1
                    | (Inr result, w1) \<Rightarrow>
                        (let results1 = results @ [result];
                             logs2 = logs1 @ [''Step '' @ step @ '' completed successfully'']
                         in if result = JNull then
                              tool_failed env tool (TypeError env ''result.isError'') logs2 results1 w1
                            else if truthy_opt (get_prop result ''isError'') then
                              tool_failed env tool
                                (Error (''Error in step '' @ step @ '': '' @ JSON_stringify env result))
                                (logs2 @ [''Step '' @ step @ '' returned error: ''
                                            @ JSON_stringify env result])
                                results1 w1
                            else \<lparr>ex_error = None, ex_logs = logs2, ex_results = results1,
                                  ex_world = w1\<rparr>))
                 else
                   \<lparr>ex_error = Some (Error (''Tool not available: '' @ to_text env tool)),
                    ex_logs = logs1 @ [''Tool not available: '' @ to_text env tool],
                    ex_results = results, ex_world = w\<rparr>)
            | _ \<Rightarrow>
                \<lparr>ex_error = Some (Error (''Tool not available: '' @ to_text env tool)),
                 ex_logs = logs1 @ [''Tool not available: '' @ to_text env tool],
                 ex_results = results, ex_world = w\<rparr>))"

text \<open>\<open>for (const [index, action] of actionPlan.entries())\<close>: a throw ends the loop.\<close>

fun run_steps ::
  "env \<Rightarrow> client \<Rightarrow> nat \<Rightarrow> nat \<Rightarrow> json list \<Rightarrow> string list \<Rightarrow> json list \<Rightarrow> world \<Rightarrow> exec" where
  "run_steps env c nsteps index [] logs results w =
     \<lparr>ex_error = None, ex_logs = logs, ex_results = results, ex_world = w\<rparr>"
| "run_steps env c nsteps index (action # actions) logs results w =
     (let ex = run_step env c nsteps index action logs results w
      in case ex_error ex of
           Some e \<Rightarrow> ex
         | None \<Rightarrow> run_steps env c nsteps (index + 1) actions (ex_logs ex) (ex_results ex)
                     (ex_world ex))"

text \<open>Only an array has \<open>entries()\<close>.\<close>

definition execute_plan :: "env \<Rightarrow> client \<Rightarrow> json \<Rightarrow> string list \<Rightarrow> world \<Rightarrow> exec" where
  "execute_plan env c actionPlan logs w =
     (case actionPlan of
        JArr actions \<Rightarrow> run_steps env c (length actions) 0 actions logs [] w
      | _ \<Rightarrow> \<lparr>ex_error = Some (TypeError env ''actionPlan.entries''), ex_logs = logs,
              ex_results = [], ex_world = w\<rparr>)"

text \<open>
  For the statements about the executor. \<open>invocation\<close> is the call an action makes:
  the tool name and the arguments. \<open>step_reply\<close> is the result the server returns
  when the action is invoked as its \<open>k\<close>-th call: \<open>None\<close> when the action names no
  tool of the client's list or the call throws. \<open>reports_error\<close> is the test
  \<open>result.isError\<close>. \<open>steps_complete\<close> says that the actions, invoked as the calls
  \<open>k\<close>, \<open>k + 1\<close>, ..., return the given results, none of them \<open>null\<close> or
  reporting an error.
\<close>

definition invocation :: "json \<Rightarrow> string \<times> json option" where
  "invocation action =
     ((case get_prop action ''tool'' of Some (JStr name) \<Rightarrow> name | _ \<Rightarrow> []),
      get_prop action ''parameters'')"

definition step_reply :: "env \<Rightarrow> client \<Rightarrow> nat \<Rightarrow> json \<Rightarrow> json option" where
  "step_reply env c k action =
     (case get_prop action ''tool'' of
        Some (JStr name) \<Rightarrow>
          (if name \<in> set (map tool_name (listTools c)) then
             (case mcp_callTool env k name (get_prop action ''parameters'') of
                Inr result \<Rightarrow> Some result
              | Inl e \<Rightarrow> None)
           else None)
      | _ \<Rightarrow> None)"

definition reports_error :: "json \<Rightarrow> bool" where
  "reports_error result = truthy_opt (get_prop result ''isError'')"


subsection \<open>Step 10 and the responses\<close>

text \<open>The body of the JSON response: \<open>success: true\<close> with the logs, the plan, the
  results and the final text, or \<open>success: false\<close> (status 500) with the logs and the
  details. \<open>modelUsed\<close> and \<open>error: "AI agent error"\<close> are constants.\<close>

datatype response =
    Success "string list" json "json list" string
  | Failure "string list" string

text \<open>The pictograph in front of the last audit line (U+1F389), which lies outside the
  code units of the model: it stands here as the four bytes of its UTF-8 form.\<close>

definition PARTY :: string where
  "PARTY = [CHR 0xF0, CHR 0x9F, CHR 0x8E, CHR 0x89]"

definition summary_prompt :: "env \<Rightarrow> string \<Rightarrow> json list \<Rightarrow> string" where
  \<open>summary_prompt env promptText results =
     ''The user requested: "'' @ promptText @ ''"'' @ NL @ NL @
     ''I executed '' @ show_nat (length results) @ '' steps successfully with these results:'' @
     NL @ NL @
     JSON_stringify2 env (JArr results) @
     NL @ NL @
     ''Based on our conversation history and the current results, please generate a comprehensive, friendly response that continues our conversation naturally. DO NOT ask for confirmation if we're in the middle of a task - just continue with the next logical steps.''\<close>

definition finish :: "env \<Rightarrow> request \<Rightarrow> chat_message list \<Rightarrow> json \<Rightarrow> exec \<Rightarrow> response \<times> world" where
  "finish env req messages actionPlan ex =
     (let logs1 = ex_logs ex @ [''Generating final response with conversation context...''];
          finalResponseMessages =
            messages @ [\<lparr>role = ''user'',
                         content = summary_prompt env (prompt req) (ex_results ex)\<rparr>]
      in case sendAnthropicMessages (anthropic_create env) finalResponseMessages 512 3
                (ex_world ex) of
           (Inl e, w1) \<Rightarrow> (Failure logs1 (errorMessage e), w1)
         | (Inr finalResponse, w1) \<Rightarrow>
             (case msg_content finalResponse of
                [] \<Rightarrow> (Failure logs1 (errorMessage (TypeError env ''finalResponse.content[0].type'')),
                       w1)
              | b # bs \<Rightarrow>
                  (Success (logs1 @ [PARTY @ '' Execution completed successfully''])
                     actionPlan (ex_results ex)
                     (if block_type b = ''text'' then block_text b
                      else ''Execution completed successfully.''),
                   w1)))"

text \<open>Step 9 and what follows it: an error of the executor goes to the route's
  \<open>catch\<close>.\<close>

definition execute_and_finish ::
  "env \<Rightarrow> request \<Rightarrow> client \<Rightarrow> chat_message list \<Rightarrow> json \<Rightarrow> string list \<Rightarrow> world
     \<Rightarrow> response \<times> world" where
  "execute_and_finish env req c messages actionPlan logs w =
     (let ex = execute_plan env c actionPlan logs w
      in case ex_error ex of
           Some e \<Rightarrow> (Failure (ex_logs ex) (errorMessage e), ex_world ex)
         | None \<Rightarrow> finish env req messages actionPlan ex)"

definition run_plan ::
  "env \<Rightarrow> request \<Rightarrow> client \<Rightarrow> chat_message list \<Rightarrow> string \<Rightarrow> string list \<Rightarrow> world
     \<Rightarrow> response \<times> world" where
  "run_plan env req c messages planResponse logs w =
     (case parse_stage env (pageContext req) planResponse logs of
        (actionPlan, logs1) \<Rightarrow> execute_and_finish env req c messages actionPlan logs1 w)"

definition plan_request ::
  "env \<Rightarrow> request \<Rightarrow> client \<Rightarrow> string \<Rightarrow> string list \<Rightarrow> world \<Rightarrow> response \<times> world" where
  "plan_request env req c toolsDescription logs w =
     (let messages = build_messages toolsDescription req;
          logs1 = logs @ request_logs req @ history_logs req
                    @ [''Querying Claude Sonnet 4.5 for execution plan with conversation context...'']
      in case sendAnthropicMessages (anthropic_create env) messages 4096 3 w of
           (Inl e, w1) \<Rightarrow> (Failure logs1 (errorMessage e), w1)
         | (Inr planMessage, w1) \<Rightarrow>
             (case plan_text env planMessage of
                Inl e \<Rightarrow> (Failure logs1 (errorMessage e), w1)
              | Inr planResponse \<Rightarrow>
                  run_plan env req c messages planResponse
                    (logs1
                     @ [''Claude response received, length: '' @ show_nat (length planResponse)
                          @ '' chars'']
                     @ (if stop_reason planMessage = Some ''max_tokens''
                        then [''Warning: Claude response may be truncated due to token limit'']
                        else []))
                    w1))"

text \<open>The \<open>try\<close> block after the connection, with the route's \<open>catch\<close>.\<close>

definition try_body :: "env \<Rightarrow> client \<Rightarrow> string list \<Rightarrow> world \<Rightarrow> response \<times> world" where
  "try_body env c logs w =
     (let logs1 = logs @ [''MCP connection established successfully'',
                          ''Fetching available tools from MCP server...'',
                          ''Available tools: '' @ show_nat (length (listTools c)),
                          ''Fetching tool schemas...''];
          toolsDescription = buildToolsDescription (discover c) 20 2000
      in case req_json env of
           Inl e \<Rightarrow> (Failure logs1 (errorMessage e), w)
         | Inr req \<Rightarrow> plan_request env req c toolsDescription logs1 w)"

text \<open>\<open>finally\<close>: \<open>client.close()\<close> when the client exists; what it throws is caught
  and goes to the console only.\<close>

definition close_client :: "world \<Rightarrow> world" where
  "close_client w = w\<lparr>closes := closes w + 1\<rparr>"

definition POST :: "env \<Rightarrow> world \<Rightarrow> response \<times> world" where
  "POST env w =
     (let logs = [''Connecting to Sitecore MCP server...'']
      in case createSitecoreMCPClient env w of
           (Inl e, w1) \<Rightarrow> (Failure logs (errorMessage e), w1)
         | (Inr c, w1) \<Rightarrow>
             (case try_body env c logs w1 of (resp, w2) \<Rightarrow> (resp, close_client w2)))"

section \<open>Sample collaborators\<close>

text \<open>Concrete replies of the Anthropic API and of the MCP server, used to run the
  definitions above on explicit inputs.\<close>

definition rate_limited :: thrown where
  "rate_limited =
     \<lparr>instanceof_Error = True, message = ''429 rate_limit_error'',
      to_string = ''Error: 429 rate_limit_error'', status = Some 429,
      error_body = None, response = None\<rparr>"

definition text_reply :: "string \<Rightarrow> llm_message" where
  "text_reply t =
     \<lparr>msg_content = [\<lparr>block_type = ''text'', block_text = t\<rparr>], stop_reason = Some ''end_turn''\<rparr>"

text \<open>Rate-limited on the first two calls, answering on the third.\<close>

definition create_third_time :: anthropic where
  "create_third_time k messages max_tokens =
     (if k < 2 then Inl rate_limited else Inr (text_reply ''[]''))"

text \<open>Two tools: one with an input schema, one with neither schema nor parameters.\<close>

definition sample_tools :: "tool list" where
  "sample_tools =
     [\<lparr>tool_name = ''content_items.list'', tool_description = Some ''List content items'',
       tool_inputSchema =
         Some (JObj [(''type'', JStr ''object''),
                     (''properties'', JObj [(''page'', JObj [(''type'', JStr ''number'')]),
                                            (''pageSize'', JObj [(''type'', JStr ''number'')])])]),
       tool_parameters = None\<rparr>,
      \<lparr>tool_name = ''item-service-edit-item'', tool_description = None,
       tool_inputSchema = None, tool_parameters = None\<rparr>]"

definition sample_client :: client where
  "sample_client = \<lparr>toolsList = sample_tools\<rparr>"

text \<open>A runtime for the samples: \<open>String\<close> and \<open>JSON.stringify\<close> (compact, and with
  an indentation of 2) on values whose numbers are written in canonical form and whose
  strings hold no control characters, and fixed error messages.\<close>

definition quote :: "string \<Rightarrow> string" where
  "quote s =
     [DQ] @ concat (map (\<lambda>c. if c = DQ \<or> c = BSL then [BSL, c] else [c]) s) @ [DQ]"

fun plain_String :: "json \<Rightarrow> string" where
  "plain_String JNull = ''null''"
| "plain_String (JBool b) = (if b then ''true'' else ''false'')"
| "plain_String (JNum lit) = lit"
| "plain_String (JStr s) = s"
| "plain_String (JArr xs) =
     join '','' (map (\<lambda>x. if x = JNull then [] else plain_String x) xs)"
| "plain_String (JObj kvs) = ''[object Object]''"

fun plain_stringify :: "json \<Rightarrow> string" where
  "plain_stringify JNull = ''null''"
| "plain_stringify (JBool b) = (if b then ''true'' else ''false'')"
| "plain_stringify (JNum lit) = lit"
| "plain_stringify (JStr s) = quote s"
| "plain_stringify (JArr xs) = ''['' @ join '','' (map plain_stringify xs) @ '']''"
| "plain_stringify (JObj kvs) =
     ''{'' @ join '','' (map (\<lambda>kv. quote (fst kv) @ '':'' @ plain_stringify (snd kv)) kvs) @ ''}''"

fun indented_stringify :: "nat \<Rightarrow> json \<Rightarrow> string" where
  "indented_stringify n JNull = ''null''"
| "indented_stringify n (JBool b) = (if b then ''true'' else ''false'')"
| "indented_stringify n (JNum lit) = lit"
| "indented_stringify n (JStr s) = quote s"
| "indented_stringify n (JArr xs) =
     (if xs = [] then ''[]''
      else ''['' @ NL @ replicate (n + 2) (CHR '' '')
             @ join ('','' @ NL @ replicate (n + 2) (CHR '' ''))
                 (map (indented_stringify (n + 2)) xs)
             @ NL @ replicate n (CHR '' '') @ '']'')"
| "indented_stringify n (JObj kvs) =
     (if kvs = [] then ''{}''
      else ''{'' @ NL @ replicate (n + 2) (CHR '' '')
             @ join ('','' @ NL @ replicate (n + 2) (CHR '' ''))
                 (map (\<lambda>kv. quote (fst kv) @ '': '' @ indented_stringify (n + 2) (snd kv)) kvs)
             @ NL @ replicate n (CHR '' '') @ ''}'')"

definition sample_request :: request where
  "sample_request =
     \<lparr>prompt = ''list the top 5 items'', pageContext = None, conversationHistory = None\<rparr>"

definition sample_plan_text :: string where
  \<open>sample_plan_text =
     ''[{"tool":"content_items.list","parameters":{"page":1,"pageSize":5},"reasoning":"list"}]''\<close>

definition sample_result :: json where
  "sample_result = JObj [(''content'', JArr [])]"

definition error_result :: json where
  "error_result = JObj [(''isError'', JBool True), (''content'', JArr [])]"

text \<open>The API answers the first call with the one-step plan and later calls with a
  summary; every tool call returns \<open>sample_result\<close>.\<close>

definition sample_env :: env where
  "sample_env =
     \<lparr>anthropic_create =
        (\<lambda>k messages max_tokens.
           Inr (text_reply (if k = 0 then sample_plan_text else ''Here are the items.''))),
      mcp_connect = None,
      mcp_listTools = Inr sample_tools,
      mcp_callTool = (\<lambda>k name arguments. Inr sample_result),
      req_json = Inr sample_request,
      String_of = plain_String,
      JSON_stringify = plain_stringify,
      JSON_stringify2 = indented_stringify 0,
      syntax_error_message = (\<lambda>txt. ''Unexpected token in JSON''),
      type_error_message = (\<lambda>what. ''Cannot read properties of '' @ what)\<rparr>"

definition server_error :: thrown where
  "server_error =
     \<lparr>instanceof_Error = True, message = ''500 Internal server error'',
      to_string = ''Error: 500 Internal server error'', status = Some 500,
      error_body = None, response = None\<rparr>"

text \<open>The plan is answered; the summary call fails with status 500.\<close>

definition env_summary_fails :: env where
  "env_summary_fails =
     sample_env\<lparr>anthropic_create :=
       (\<lambda>k messages max_tokens.
          if k = 0 then Inr (text_reply sample_plan_text) else Inl server_error)\<rparr>"

text \<open>The second tool call reports \<open>isError: true\<close>.\<close>

definition env_second_step_error :: env where
  "env_second_step_error =
     sample_env\<lparr>mcp_callTool :=
       (\<lambda>k name arguments. if k = 1 then Inr error_result else Inr sample_result)\<rparr>"

definition list_action :: "string \<Rightarrow> json" where
  "list_action why =
     JObj [(''tool'', JStr ''content_items.list''),
           (''parameters'', JObj [(''page'', JNum ''1'')]),
           (''reasoning'', JStr why)]"

text \<open>A history of twelve messages, numbered by their content.\<close>

definition twelve_messages :: "history_message list" where
  "twelve_messages =
     map (\<lambda>i. \<lparr>h_role = (if even i then ''user'' else ''assistant''),
                h_content = ''turn '' @ show_nat i, h_timestamp = ''2025-01-01''\<rparr>) [0..<12]"

definition long_request :: request where
  "long_request =
     \<lparr>prompt = ''continue'', pageContext = Some \<lparr>pageInfo_id = Some ''page-1''\<rparr>,
      conversationHistory = Some twelve_messages\<rparr>"


text \<open>The world after the planning call and after the first of the three steps.\<close>

definition after_planning :: world where
  "after_planning = world0\<lparr>api_calls := [([], 4096)]\<rparr>"

definition after_first_step :: world where
  "after_first_step = world0\<lparr>tool_calls := [invocation (list_action ''one'')]\<rparr>"

definition one_step_plan :: json where
  "one_step_plan = JArr [list_action ''one'']"

text \<open>The summary is answered with a block that is not text.\<close>

definition env_summary_not_text :: env where
  "env_summary_not_text =
     sample_env\<lparr>anthropic_create :=
       (\<lambda>k messages max_tokens.
          if k = 0 then Inr (text_reply sample_plan_text)
          else Inr \<lparr>msg_content = [\<lparr>block_type = ''tool_use'', block_text = []\<rparr>],
                    stop_reason = Some ''tool_use''\<rparr>)\<rparr>"


section \<open>Decimal digits\<close>

lemma digit_char_values:
  "digit_char 0 = CHR ''0''" "digit_char 1 = CHR ''1''" "digit_char 2 = CHR ''2''"
  "digit_char 3 = CHR ''3''" "digit_char 4 = CHR ''4''" "digit_char 5 = CHR ''5''"
  "digit_char 6 = CHR ''6''" "digit_char 7 = CHR ''7''" "digit_char 8 = CHR ''8''"
  "digit_char 9 = CHR ''9''" "digit_char (Suc 0) = CHR ''1''"
  by code_simp+

lemma show_nat_digit: "n < 10 \<Longrightarrow> show_nat n = [digit_char n]"
  by (simp add: show_nat.simps)

lemma show_nat_more: "10 \<le> n \<Longrightarrow> show_nat n = show_nat (n div 10) @ [digit_char (n mod 10)]"
  by (subst show_nat.simps) simp

lemmas show_nat_eval = show_nat_digit show_nat_more digit_char_values

section \<open>The model gateway\<close>

lemma send_loop_retry:
  assumes "create (length (api_calls w)) ms mt = Inl e" "isRateLimit e" "attempt < maxR"
  shows "send_loop create ms mt maxR attempt le w =
         send_loop create ms mt maxR (Suc attempt) (Some e)
           (w\<lparr>api_calls := api_calls w @ [(ms, mt)],
              warns := warns w @ [retry_line (500 * 2 ^ attempt) (Suc attempt) maxR],
              sleeps := sleeps w @ [500 * 2 ^ attempt]\<rparr>)"
  using assms by (subst send_loop.simps) (simp add: Let_def)

lemma send_loop_return:
  assumes "create (length (api_calls w)) ms mt = Inr m" "attempt \<le> maxR"
  shows "send_loop create ms mt maxR attempt le w =
         (Inr m, w\<lparr>api_calls := api_calls w @ [(ms, mt)]\<rparr>)"
  using assms by (subst send_loop.simps) (simp add: Let_def)

lemma send_loop_throw:
  assumes "create (length (api_calls w)) ms mt = Inl e" "attempt \<le> maxR"
    "\<not> isRateLimit e \<or> maxR \<le> attempt"
  shows "send_loop create ms mt maxR attempt le w =
         (Inl e, w\<lparr>api_calls := api_calls w @ [(ms, mt)]\<rparr>)"
  using assms by (subst send_loop.simps) (auto simp add: Let_def)

text \<open>The world after \<open>n\<close> retries that started at \<open>attempt\<close>.\<close>

lemma send_loop_run:
  assumes "attempt + n \<le> maxR"
    "\<forall>i<n. \<exists>e. create (length (api_calls w) + i) ms mt = Inl e \<and> isRateLimit e"
  shows "\<exists>le'. send_loop create ms mt maxR attempt le w =
         send_loop create ms mt maxR (attempt + n) le'
           (w\<lparr>api_calls := api_calls w @ replicate n (ms, mt),
              warns := warns w @ map (\<lambda>i. retry_line (500 * 2 ^ (attempt + i)) (attempt + i + 1) maxR) [0..<n],
              sleeps := sleeps w @ map (\<lambda>i. 500 * 2 ^ (attempt + i)) [0..<n]\<rparr>)"
  using assms
proof (induction n arbitrary: attempt le w)
  case 0
  then show ?case by auto
next
  case (Suc n)
  from Suc.prems(2) obtain e where e: "create (length (api_calls w)) ms mt = Inl e" "isRateLimit e"
    by force
  let ?w1 = "w\<lparr>api_calls := api_calls w @ [(ms, mt)],
              warns := warns w @ [retry_line (500 * 2 ^ attempt) (Suc attempt) maxR],
              sleeps := sleeps w @ [500 * 2 ^ attempt]\<rparr>"
  have step: "send_loop create ms mt maxR attempt le w
                = send_loop create ms mt maxR (Suc attempt) (Some e) ?w1"
    using send_loop_retry [of create w ms mt e attempt maxR le] e Suc.prems(1) by simp
  have later: "\<forall>i<n. \<exists>e. create (length (api_calls ?w1) + i) ms mt = Inl e \<and> isRateLimit e"
    using Suc.prems(2) by (auto simp: less_Suc_eq_0_disj)
  from Suc.IH [of "Suc attempt" ?w1 "Some e", OF _ later] Suc.prems(1)
  obtain le' where "send_loop create ms mt maxR (Suc attempt) (Some e) ?w1 =
         send_loop create ms mt maxR (Suc attempt + n) le'
           (?w1\<lparr>api_calls := api_calls ?w1 @ replicate n (ms, mt),
              warns := warns ?w1 @ map (\<lambda>i. retry_line (500 * 2 ^ (Suc attempt + i)) (Suc attempt + i + 1) maxR) [0..<n],
              sleeps := sleeps ?w1 @ map (\<lambda>i. 500 * 2 ^ (Suc attempt + i)) [0..<n]\<rparr>)"
    by auto
  then show ?case
    using step by (auto simp: upt_conv_Cons map_Suc_upt [symmetric] comp_def simp del: upt_Suc)
qed

lemma send_loop_throws_api_error:
  "attempt \<le> maxR \<Longrightarrow> fst (send_loop create ms mt maxR attempt le w) = Inl e
   \<Longrightarrow> \<exists>k. create k ms mt = Inl e"
proof (induction create ms mt maxR attempt le w rule: send_loop.induct)
  case (1 create ms mt maxR attempt le w)
  show ?case
  proof (cases "create (length (api_calls w)) ms mt")
    case (Inr m)
    with "1.prems" send_loop_return [of create w ms mt m attempt maxR le] show ?thesis
      by simp
  next
    case (Inl x)
    show ?thesis
    proof (cases "\<not> isRateLimit x \<or> maxR \<le> attempt")
      case True
      with "1.prems" Inl send_loop_throw [of create w ms mt x attempt maxR le] show ?thesis
        by auto
    next
      case False
      let ?w1 = "w\<lparr>api_calls := api_calls w @ [(ms, mt)]\<rparr>"
      let ?w2 = "?w1\<lparr>warns := warns ?w1 @ [retry_line (500 * 2 ^ (attempt + 1 - 1)) (attempt + 1) maxR],
                     sleeps := sleeps ?w1 @ [500 * 2 ^ (attempt + 1 - 1)]\<rparr>"
      from False have go: "isRateLimit x" "attempt < maxR" by auto
      have eq: "send_loop create ms mt maxR attempt le w
                  = send_loop create ms mt maxR (attempt + 1) (Some x) ?w2"
        using send_loop_retry [of create w ms mt x attempt maxR le] Inl go by simp
      show ?thesis
        using "1.IH" [of ?w1 x "500 * 2 ^ (attempt + 1 - 1)"] "1.prems" Inl go eq by simp
    qed
  qed
qed

text \<open>What the gateway throws was thrown by the API: the \<open>throw lastErr\<close> after the
  loop, with \<open>lastErr\<close> still \<open>null\<close>, is never reached.\<close>

lemma sendAnthropicMessages_throws_api_error:
  "fst (sendAnthropicMessages create ms mt maxR w) = Inl e \<Longrightarrow> \<exists>k. create k ms mt = Inl e"
  unfolding sendAnthropicMessages_def using send_loop_throws_api_error [of 0 maxR] by simp

text \<open>
  Claim C5. With the policy of 3 retries: when the first \<open>n \<le> 3\<close> calls fail with a
  rate-limit error, the gateway has slept \<open>500 * 2^(k-1)\<close> and written one warning
  before each retry \<open>k = 1..n\<close>. If the next call answers, that answer is returned; if
  it fails with another kind of error, or it is the call after the third retry, its
  error is thrown, with no further call, sleep or warning.
\<close>

theorem gateway_backoff_policy:
  assumes "n \<le> 3"
    and "\<forall>i<n. \<exists>e. create (length (api_calls w) + i) ms mt = Inl e \<and> isRateLimit e"
    and "reply = create (length (api_calls w) + n) ms mt"
    and "(\<exists>m. reply = Inr m) \<or> (\<exists>e. reply = Inl e \<and> (\<not> isRateLimit e \<or> n = 3))"
  shows "sendAnthropicMessages create ms mt 3 w =
           (reply,
            w\<lparr>api_calls := api_calls w @ replicate (Suc n) (ms, mt),
              warns := warns w @ map (\<lambda>k. retry_line (500 * 2 ^ (k - 1)) k 3) [1..<Suc n],
              sleeps := sleeps w @ map (\<lambda>k. 500 * 2 ^ (k - 1)) [1..<Suc n]\<rparr>)"
proof -
  let ?w' = "w\<lparr>api_calls := api_calls w @ replicate n (ms, mt),
              warns := warns w @ map (\<lambda>i. retry_line (500 * 2 ^ (0 + i)) (0 + i + 1) 3) [0..<n],
              sleeps := sleeps w @ map (\<lambda>i. 500 * 2 ^ (0 + i)) [0..<n]\<rparr>"
  from send_loop_run [of 0 n 3 create w ms mt None] assms(1,2)
  obtain le' where run: "send_loop create ms mt 3 0 None w = send_loop create ms mt 3 n le' ?w'"
    by auto
  have len: "length (api_calls ?w') = length (api_calls w) + n" by simp
  have last: "send_loop create ms mt 3 n le' ?w' = (reply, ?w'\<lparr>api_calls := api_calls ?w' @ [(ms, mt)]\<rparr>)"
  proof (cases reply)
    case (Inr m)
    then show ?thesis
      using send_loop_return [of create ?w' ms mt m n 3 le'] assms(1,3) len by simp
  next
    case (Inl e)
    then have "\<not> isRateLimit e \<or> 3 \<le> n" using assms(4) by auto
    then show ?thesis
      using send_loop_throw [of create ?w' ms mt e n 3 le'] assms(1,3) len Inl by simp
  qed
  show ?thesis
    unfolding sendAnthropicMessages_def run last
    by (simp add: map_Suc_upt [symmetric] comp_def replicate_append_same del: upt_Suc)
qed

theorem gateway_backoff_policy_witness:
  "isRateLimit rate_limited
   \<and> create_third_time 0 [] 4096 = Inl rate_limited
   \<and> create_third_time 1 [] 4096 = Inl rate_limited
   \<and> sendAnthropicMessages create_third_time [] 4096 3 world0 =
       (Inr (text_reply ''[]''),
        world0\<lparr>api_calls := [([], 4096), ([], 4096), ([], 4096)],
               warns := [''Rate limit detected from Anthropic, retrying in 500ms (attempt 1/3)'',
                         ''Rate limit detected from Anthropic, retrying in 1000ms (attempt 2/3)''],
               sleeps := [500, 1000]\<rparr>)"
proof -
  have rl: "isRateLimit rate_limited"
    by (simp add: isRateLimit_def rate_limited_def truthy_status_def)
  have hyp: "\<forall>i<2. \<exists>e. create_third_time (length (api_calls world0) + i) [] 4096 = Inl e \<and> isRateLimit e"
    using rl by (simp add: create_third_time_def world0_def)
  have reply: "create_third_time (length (api_calls world0) + 2) [] 4096 = Inr (text_reply ''[]'')"
    by (simp add: create_third_time_def world0_def)
  have lines: "retry_line 500 1 3 = ''Rate limit detected from Anthropic, retrying in 500ms (attempt 1/3)''"
    "retry_line 1000 2 3 = ''Rate limit detected from Anthropic, retrying in 1000ms (attempt 2/3)''"
    by (simp_all add: retry_line_def show_nat_eval)
  have "sendAnthropicMessages create_third_time [] 4096 3 world0 =
          (Inr (text_reply ''[]''),
           world0\<lparr>api_calls := api_calls world0 @ replicate (Suc 2) ([], 4096),
             warns := warns world0 @ map (\<lambda>k. retry_line (500 * 2 ^ (k - 1)) k 3) [1..<Suc 2],
             sleeps := sleeps world0 @ map (\<lambda>k. 500 * 2 ^ (k - 1)) [1..<Suc 2]\<rparr>)"
    using gateway_backoff_policy [of 2 create_third_time world0 "[]" 4096 "Inr (text_reply ''[]'')"]
      hyp reply by simp
  then show ?thesis
    using rl lines by (simp add: world0_def create_third_time_def upt_conv_Cons numeral_2_eq_2 del: upt_Suc)
qed

section \<open>The fuel of \<open>JSON_parse\<close>\<close>

text \<open>Every parser consumes input, so the calls nested in a text of length \<open>l\<close> are
  fewer than \<open>2 * l + 2\<close>: with that much fuel or more, the result is the same.\<close>

lemma skip_ws_Cons: "skip_ws s = c # r \<Longrightarrow> length r < length s"
  unfolding skip_ws_def
  using length_dropWhile_le [of json_ws s] by simp

lemma parse_chars_shorter: "parse_chars s = Some (x, r) \<Longrightarrow> length r < length s"
proof (induction "length s" arbitrary: s x r rule: less_induct)
  case less
  show ?case
  proof (cases s)
    case Nil
    with less.prems show ?thesis by simp
  next
    case (Cons c cs)
    have ih: "parse_chars t = Some (y, r') \<Longrightarrow> length t \<le> length cs \<Longrightarrow> length r' < length s"
      for t y r'
      using less.hyps [of t y r'] Cons by (cases "length t < length s") auto
    show ?thesis
    proof (cases cs)
      case Nil
      with less.prems Cons show ?thesis
        by (auto simp: cons_fst_def split: if_splits option.splits)
    next
      case inner: (Cons e r0)
      have l1: "length r0 \<le> length cs" "length (drop 4 r0) \<le> length cs"
        using inner by auto
      from less.prems Cons inner ih [of cs] ih [of r0] ih [of "drop 4 r0"] l1
      show ?thesis
        by (auto simp: cons_fst_def split: if_splits option.splits)
    qed
  qed
qed


lemma lex_number_shorter: "lex_number s = Some (lit, r) \<Longrightarrow> length r < length s"
proof -
  have dw: "length (dropWhile is_digit xs) \<le> length xs + k" for xs k
    using length_dropWhile_le [of is_digit xs] by simp
  have i: "lex_int t = Some (a, b) \<Longrightarrow> length b < length t" for t a b
    using dw [of _ 0]
    by (auto simp: lex_int_def less_Suc_eq_le split: list.splits if_splits)
  have f: "lex_frac t = Some (a, b) \<Longrightarrow> length b \<le> length t" for t a b
    using dw [of _ 1]
    by (auto simp: lex_frac_def split: list.splits if_splits)
  have e: "lex_exp t = Some (a, b) \<Longrightarrow> length b \<le> length t" for t a b
    using dw [of _ 1] dw [of _ 2]
    by (auto simp: lex_exp_def Let_def split: list.splits if_splits)
  assume "lex_number s = Some (lit, r)"
  then obtain i0 r1 f0 r2 e0 t where
    "lex_int t = Some (i0, r1)" "length t \<le> length s"
    "lex_frac r1 = Some (f0, r2)" "lex_exp r2 = Some (e0, r)"
    by (auto simp: lex_number_def Let_def split: option.splits)
  from i [OF this(1)] this(2) f [OF this(3)] e [OF this(4)] show ?thesis
    by simp
qed


lemma parse_consumes:
  "(parse_value n s = Some (v, r) \<longrightarrow> length r < length s)
   \<and> (parse_elems n acc s = Some (v, r) \<longrightarrow> length r < length s)
   \<and> (parse_members n kvs s = Some (v, r) \<longrightarrow> length r < length s)"
proof (induction n arbitrary: s v r acc kvs)
  case 0
  show ?case by simp
next
  case (Suc n)
  have ihv: "parse_value n t = Some (x, y) \<Longrightarrow> length y < length t" for t x y
    using Suc.IH by blast
  have ihe: "parse_elems n a t = Some (x, y) \<Longrightarrow> length y < length t" for a t x y
    using Suc.IH by blast
  have ihm: "parse_members n a t = Some (x, y) \<Longrightarrow> length y < length t" for a t x y
    using Suc.IH by blast
  have val: "length r < length s" if p: "parse_value (Suc n) s = Some (v, r)"
  proof (cases "skip_ws s")
    case Nil
    with p show ?thesis by simp
  next
    case (Cons c r0)
    note l0 = skip_ws_Cons [OF Cons]
    consider (obj) "c = CHR ''{''" | (arr) "c \<noteq> CHR ''{''" "c = CHR ''[''"
      | (str) "c \<noteq> CHR ''{''" "c \<noteq> CHR ''[''" "c = DQ"
      | (other) "c \<noteq> CHR ''{''" "c \<noteq> CHR ''[''" "c \<noteq> DQ" by blast
    then show ?thesis
    proof cases
      case obj
      show ?thesis
      proof (cases "skip_ws r0")
        case Nil
        with p Cons obj show ?thesis by simp
      next
        case inner: (Cons d r1)
        note l1 = skip_ws_Cons [OF inner]
        from p Cons obj inner l0 l1 ihm [of "[]" "d # r1" v r] show ?thesis
          by (auto split: if_splits)
      qed
    next
      case arr
      show ?thesis
      proof (cases "skip_ws r0")
        case Nil
        with p Cons arr show ?thesis by simp
      next
        case inner: (Cons d r1)
        note l1 = skip_ws_Cons [OF inner]
        from p Cons arr inner l0 l1 ihe [of "[]" "d # r1" v r] show ?thesis
          by (auto split: if_splits)
      qed
    next
      case str
      from p Cons str l0 parse_chars_shorter [of r0] show ?thesis
        by (auto split: option.splits)
    next
      case other
      have "length (drop k (c # r0)) \<le> length s" for k
        using l0 by simp
      with p Cons other l0 lex_number_shorter [of "c # r0"] show ?thesis
        by (auto split: option.splits if_splits simp: startsWith_def)
    qed
  qed
  have elems: "length r < length s" if p: "parse_elems (Suc n) acc s = Some (v, r)"
  proof -
    from p obtain x r0 where x: "parse_value n s = Some (x, r0)"
      by (auto split: option.splits)
    note l0 = ihv [OF x]
    from p x obtain c r1 where c: "skip_ws r0 = c # r1"
      by (auto split: list.splits)
    note l1 = skip_ws_Cons [OF c]
    from p x c l0 l1 ihe [of "acc @ [x]" r1 v r] show ?thesis
      by (auto split: if_splits)
  qed
  have members: "length r < length s" if p: "parse_members (Suc n) kvs s = Some (v, r)"
  proof -
    from p obtain q r0 where q: "skip_ws s = q # r0" "q = DQ"
      by (auto split: list.splits if_splits)
    note l0 = skip_ws_Cons [OF q(1)]
    from p q obtain k r1 where k: "parse_chars r0 = Some (k, r1)"
      by (auto split: option.splits)
    note l1 = parse_chars_shorter [OF k]
    from p q k obtain c r2 where c: "skip_ws r1 = c # r2" "c = CHR '':''"
      by (auto split: list.splits if_splits)
    note l2 = skip_ws_Cons [OF c(1)]
    from p q k c obtain x r3 where x: "parse_value n r2 = Some (x, r3)"
      by (auto split: option.splits)
    note l3 = ihv [OF x]
    from p q k c x obtain d r4 where d: "skip_ws r3 = d # r4"
      by (auto split: list.splits)
    note l4 = skip_ws_Cons [OF d]
    from p q k c x d l0 l1 l2 l3 l4 ihm [of "obj_put k x kvs" r4 v r] show ?thesis
      by (auto split: if_splits)
  qed
  from val elems members show ?case by blast
qed


lemma parse_value_consumes: "parse_value n s = Some (v, r) \<Longrightarrow> length r < length s"
  using parse_consumes by blast

lemma fuel_enough:
  "(2 * length s + 1 \<le> n \<longrightarrow> 2 * length s + 1 \<le> m \<longrightarrow> parse_value n s = parse_value m s)
   \<and> (2 * length s + 2 \<le> n \<longrightarrow> 2 * length s + 2 \<le> m
        \<longrightarrow> parse_elems n acc s = parse_elems m acc s)
   \<and> (2 * length s + 2 \<le> n \<longrightarrow> 2 * length s + 2 \<le> m
        \<longrightarrow> parse_members n kvs s = parse_members m kvs s)"
proof (induction n arbitrary: m s acc kvs)
  case 0
  show ?case by simp
next
  case (Suc n)
  have ihv: "parse_value n t = parse_value k t"
    if "2 * length t + 1 \<le> n" "2 * length t + 1 \<le> k" for t k
    using Suc.IH that by blast
  have ihe: "parse_elems n a t = parse_elems k a t"
    if "2 * length t + 2 \<le> n" "2 * length t + 2 \<le> k" for a t k
    using Suc.IH that by blast
  have ihm: "parse_members n a t = parse_members k a t"
    if "2 * length t + 2 \<le> n" "2 * length t + 2 \<le> k" for a t k
    using Suc.IH that by blast
  have val: "parse_value (Suc n) s = parse_value m s"
    if b: "2 * length s + 1 \<le> Suc n" "2 * length s + 1 \<le> m"
  proof -
    from b obtain k where m: "m = Suc k" by (cases m) auto
    show ?thesis
    proof (cases "skip_ws s")
      case Nil
      then show ?thesis by (simp add: m)
    next
      case (Cons c r0)
      note l0 = skip_ws_Cons [OF Cons]
      show ?thesis
      proof (cases "skip_ws r0")
        case Nil
        with Cons show ?thesis by (simp add: m)
      next
        case inner: (Cons d r1)
        note l1 = skip_ws_Cons [OF inner]
        have "parse_members n [] (d # r1) = parse_members k [] (d # r1)"
          using ihm [of "d # r1" k "[]"] b m l0 l1 by simp
        moreover have "parse_elems n [] (d # r1) = parse_elems k [] (d # r1)"
          using ihe [of "d # r1" k "[]"] b m l0 l1 by simp
        ultimately show ?thesis
          using Cons inner by (auto simp add: m)
      qed
    qed
  qed
  have elems: "parse_elems (Suc n) acc s = parse_elems m acc s"
    if b: "2 * length s + 2 \<le> Suc n" "2 * length s + 2 \<le> m"
  proof -
    from b obtain k where m: "m = Suc k" by (cases m) auto
    have v: "parse_value n s = parse_value k s"
      using ihv [of s k] b m by simp
    show ?thesis
    proof (cases "parse_value k s")
      case None
      with v show ?thesis by (simp add: m)
    next
      case (Some vr)
      obtain x r0 where vr: "vr = (x, r0)" by (cases vr)
      note l0 = parse_value_consumes [OF Some [unfolded vr]]
      show ?thesis
      proof (cases "skip_ws r0")
        case Nil
        with v Some vr show ?thesis by (simp add: m)
      next
        case (Cons c r1)
        note l1 = skip_ws_Cons [OF Cons]
        have "parse_elems n (acc @ [x]) r1 = parse_elems k (acc @ [x]) r1"
          using ihe [of r1 k "acc @ [x]"] b m l0 l1 by simp
        then show ?thesis
          using v Some vr Cons by (simp add: m)
      qed
    qed
  qed
  have members: "parse_members (Suc n) kvs s = parse_members m kvs s"
    if b: "2 * length s + 2 \<le> Suc n" "2 * length s + 2 \<le> m"
  proof -
    from b obtain k where m: "m = Suc k" by (cases m) auto
    show ?thesis
    proof (cases "skip_ws s")
      case Nil
      then show ?thesis by (simp add: m)
    next
      case (Cons q r0)
      note l0 = skip_ws_Cons [OF Cons]
      show ?thesis
      proof (cases "parse_chars r0")
        case None
        with Cons show ?thesis by (simp add: m)
      next
        case (Some kr)
        obtain key r1 where kr: "kr = (key, r1)" by (cases kr)
        note l1 = parse_chars_shorter [OF Some [unfolded kr]]
        show ?thesis
        proof (cases "skip_ws r1")
          case Nil
          with Cons Some kr show ?thesis by (simp add: m)
        next
          case colon: (Cons c r2)
          note l2 = skip_ws_Cons [OF colon]
          have v: "parse_value n r2 = parse_value k r2"
            using ihv [of r2 k] b m l0 l1 l2 by simp
          show ?thesis
          proof (cases "parse_value k r2")
            case None
            with v Cons Some kr colon show ?thesis by (simp add: m)
          next
            case val: (Some vr)
            obtain x r3 where vr: "vr = (x, r3)" by (cases vr)
            note l3 = parse_value_consumes [OF val [unfolded vr]]
            show ?thesis
            proof (cases "skip_ws r3")
              case Nil
              with v Cons Some kr colon val vr show ?thesis by (simp add: m)
            next
              case sep: (Cons d r4)
              note l4 = skip_ws_Cons [OF sep]
              have "parse_members n (obj_put key x kvs) r4 = parse_members k (obj_put key x kvs) r4"
                using ihm [of r4 k "obj_put key x kvs"] b m l0 l1 l2 l3 l4 by simp
              then show ?thesis
                using v Cons Some kr colon val vr sep by (simp add: m)
            qed
          qed
        qed
      qed
    qed
  qed
  from val elems members show ?case by blast
qed

text \<open>More fuel than \<open>JSON_parse\<close> supplies changes nothing.\<close>

lemma JSON_parse_fuel:
  "2 * length s + 2 \<le> n \<Longrightarrow> parse_value n s = parse_value (2 * length s + 2) s"
  using fuel_enough [of s n "2 * length s + 2"] by simp

section \<open>The plan parser\<close>

text \<open>
  Claim C3, at the text \<open>[{"tool":"a"},{"tool":"b"},\<close>: an array cut after its second
  complete object. The object pattern asks for \<open>,{\<close> or \<open>]\<close> after the closing brace,
  so it finds the first object only; the reconstruction \<open>[{"tool":"a"}]\<close> parses and is
  returned, and the second complete object is lost. The strategies that follow in the
  source (\<open>parse_direct\<close>: direct parse, then the trailing-comma repair) would have
  returned both objects.
\<close>

theorem truncated_array_loses_complete_object:
  \<open>isTruncated ''[{"tool":"a"},{"tool":"b"},''
   \<and> match_objects ''[{"tool":"a"},{"tool":"b"},'' = [''{"tool":"a"}'']
   \<and> parseClaudeResponse ''[{"tool":"a"},{"tool":"b"},''
     = Inr (JArr [JObj [(''tool'', JStr ''a'')]])
   \<and> parse_direct ''[{"tool":"a"},{"tool":"b"},''
     = Inr (JArr [JObj [(''tool'', JStr ''a'')], JObj [(''tool'', JStr ''b'')]])\<close>
  by code_simp

text \<open>
  Claim C4, at a one-step plan whose reasoning text holds \<open>{x} , {y}\<close>. Bare, the text
  ends in \<open>]\<close> and is parsed as it is. Inside a fence the text ends in \<open>```\<close>, so it counts
  as truncated; the object pattern cuts it at \<open>{x}\<close> (followed by \<open> , {\<close>) and again at
  the last brace, and the pieces joined by \<open>,\<close> parse to a plan whose reasoning is
  \<open>use {x},{y}\<close>. Extracting the fence first (\<open>parse_direct\<close>) would have given the
  value of the bare text.
\<close>

theorem fenced_plan_parsed_differently:
  \<open>JSON_parse ''[{"tool":"t","parameters":{},"reasoning":"use {x} , {y}"}]''
     = Some (JArr [JObj [(''tool'', JStr ''t''), (''parameters'', JObj []),
                         (''reasoning'', JStr ''use {x} , {y}'')]])
   \<and> parseClaudeResponse ''[{"tool":"t","parameters":{},"reasoning":"use {x} , {y}"}]''
     = Inr (JArr [JObj [(''tool'', JStr ''t''), (''parameters'', JObj []),
                        (''reasoning'', JStr ''use {x} , {y}'')]])
   \<and> parseClaudeResponse
        (''```json'' @ NL
           @ ''[{"tool":"t","parameters":{},"reasoning":"use {x} , {y}"}]'' @ NL @ ''```'')
     = Inr (JArr [JObj [(''tool'', JStr ''t''), (''parameters'', JObj []),
                        (''reasoning'', JStr ''use {x},{y}'')]])
   \<and> parse_direct
        (''```json'' @ NL
           @ ''[{"tool":"t","parameters":{},"reasoning":"use {x} , {y}"}]'' @ NL @ ''```'')
     = Inr (JArr [JObj [(''tool'', JStr ''t''), (''parameters'', JObj []),
                        (''reasoning'', JStr ''use {x} , {y}'')]])\<close>
  by code_simp

section \<open>The MCP client\<close>






section \<open>What the stages do to the world\<close>

text \<open>A stage of the route never closes the client, and it only adds to the calls made
  to the Anthropic API.\<close>

lemma send_loop_world:
  "closes (snd (send_loop create ms mt maxR attempt le w)) = closes w
   \<and> (\<exists>k. api_calls (snd (send_loop create ms mt maxR attempt le w))
           = api_calls w @ replicate k (ms, mt) \<and> (attempt \<le> maxR \<longrightarrow> 0 < k))"
proof (induction create ms mt maxR attempt le w rule: send_loop.induct)
  case (1 create ms mt maxR attempt le w)
  show ?case
  proof (cases "attempt \<le> maxR")
    case False
    then show ?thesis
      by (subst send_loop.simps, subst (2) send_loop.simps) (auto intro: exI [of _ 0])
  next
    case True
    show ?thesis
    proof (cases "create (length (api_calls w)) ms mt")
      case (Inr m)
      then show ?thesis
        using True send_loop_return [of create w ms mt m attempt maxR le]
        by (auto intro: exI [of _ 1])
    next
      case (Inl e)
      show ?thesis
      proof (cases "\<not> isRateLimit e \<or> maxR \<le> attempt")
        case stop: True
        then show ?thesis
          using True Inl send_loop_throw [of create w ms mt e attempt maxR le]
          by (auto intro: exI [of _ 1])
      next
        case False
        let ?w1 = "w\<lparr>api_calls := api_calls w @ [(ms, mt)]\<rparr>"
        let ?w2 = "?w1\<lparr>warns := warns ?w1 @ [retry_line (500 * 2 ^ (attempt + 1 - 1)) (attempt + 1) maxR],
                       sleeps := sleeps ?w1 @ [500 * 2 ^ (attempt + 1 - 1)]\<rparr>"
        from False have go: "isRateLimit e" "attempt < maxR" by auto
        have ih: "closes (snd (send_loop create ms mt maxR (attempt + 1) (Some e) ?w2)) = closes ?w2
          \<and> (\<exists>k. api_calls (snd (send_loop create ms mt maxR (attempt + 1) (Some e) ?w2))
                 = api_calls ?w2 @ replicate k (ms, mt) \<and> (attempt + 1 \<le> maxR \<longrightarrow> 0 < k))"
          using "1.IH" [of ?w1 e "500 * 2 ^ (attempt + 1 - 1)"] True Inl go by simp
        then obtain k where k: "api_calls (snd (send_loop create ms mt maxR (attempt + 1) (Some e) ?w2))
                 = api_calls ?w2 @ replicate k (ms, mt)" by blast
        have eq: "send_loop create ms mt maxR attempt le w
                  = send_loop create ms mt maxR (attempt + 1) (Some e) ?w2"
          using send_loop_retry [of create w ms mt e attempt maxR le] Inl go by simp
        have "api_calls (snd (send_loop create ms mt maxR attempt le w))
                = api_calls w @ replicate (Suc k) (ms, mt)"
          using k eq by simp
        then show ?thesis
          using ih eq by (intro conjI exI [of _ "Suc k"]) simp_all
      qed
    qed
  qed
qed

lemma sendAnthropicMessages_world:
  "closes (snd (sendAnthropicMessages create ms mt maxR w)) = closes w
   \<and> (\<exists>k. api_calls (snd (sendAnthropicMessages create ms mt maxR w))
           = api_calls w @ (ms, mt) # replicate k (ms, mt))"
proof -
  from send_loop_world [of create ms mt maxR 0 None w]
  obtain k where k: "closes (snd (send_loop create ms mt maxR 0 None w)) = closes w"
    "api_calls (snd (send_loop create ms mt maxR 0 None w)) = api_calls w @ replicate k (ms, mt)"
    "0 < k" by auto
  then obtain j where "k = Suc j" by (cases k) auto
  with k show ?thesis
    unfolding sendAnthropicMessages_def by (auto intro: exI [of _ j])
qed

lemma run_step_world:
  "closes (ex_world (run_step env c n i a logs rs w)) = closes w
   \<and> api_calls (ex_world (run_step env c n i a logs rs w)) = api_calls w"
  by (auto simp: run_step_def tool_failed_def callTool_def Let_def
      split: option.splits json.splits sum.splits prod.splits)

lemma run_steps_world:
  "closes (ex_world (run_steps env c n i as logs rs w)) = closes w
   \<and> api_calls (ex_world (run_steps env c n i as logs rs w)) = api_calls w"
proof (induction as arbitrary: i logs rs w)
  case Nil
  show ?case by simp
next
  case (Cons a as)
  show ?case
    using Cons.IH run_step_world [of env c n i a logs rs w]
    by (auto simp: Let_def split: option.splits)
qed

lemma execute_plan_world:
  "closes (ex_world (execute_plan env c plan logs w)) = closes w
   \<and> api_calls (ex_world (execute_plan env c plan logs w)) = api_calls w"
  using run_steps_world by (auto simp: execute_plan_def split: json.splits)

lemma finish_world:
  "closes (snd (finish env req ms plan ex)) = closes (ex_world ex)
   \<and> (\<exists>extra. api_calls (snd (finish env req ms plan ex)) = api_calls (ex_world ex) @ extra)"
proof -
  let ?ms = "ms @ [\<lparr>role = ''user'', content = summary_prompt env (prompt req) (ex_results ex)\<rparr>]"
  let ?r = "sendAnthropicMessages (anthropic_create env) ?ms 512 3 (ex_world ex)"
  have "snd (finish env req ms plan ex) = snd ?r"
    by (auto simp: finish_def Let_def split: prod.splits sum.splits list.splits)
  then show ?thesis
    using sendAnthropicMessages_world [of "anthropic_create env" ?ms 512 3 "ex_world ex"]
    by auto
qed

lemma execute_and_finish_world:
  "closes (snd (execute_and_finish env req c ms plan logs w)) = closes w
   \<and> (\<exists>extra. api_calls (snd (execute_and_finish env req c ms plan logs w)) = api_calls w @ extra)"
  using execute_plan_world [of env c plan logs w]
    finish_world [of env req ms plan "execute_plan env c plan logs w"]
  by (auto simp: execute_and_finish_def Let_def split: option.splits)

lemma run_plan_world:
  "closes (snd (run_plan env req c ms txt logs w)) = closes w
   \<and> (\<exists>extra. api_calls (snd (run_plan env req c ms txt logs w)) = api_calls w @ extra)"
  using execute_and_finish_world by (auto simp: run_plan_def split: prod.splits)

lemma plan_request_world:
  "closes (snd (plan_request env req c td logs w)) = closes w
   \<and> (\<exists>extra. api_calls (snd (plan_request env req c td logs w))
          = api_calls w @ (build_messages td req, 4096) # extra)"
proof -
  let ?ms = "build_messages td req"
  let ?r = "sendAnthropicMessages (anthropic_create env) ?ms 4096 3 w"
  from sendAnthropicMessages_world [of "anthropic_create env" ?ms 4096 3 w]
  obtain k where k: "closes (snd ?r) = closes w"
    "api_calls (snd ?r) = api_calls w @ (?ms, 4096) # replicate k (?ms, 4096)" by auto
  show ?thesis
  proof (cases ?r)
    case (Pair res w1)
    with k have w1: "closes w1 = closes w"
      "api_calls w1 = api_calls w @ (?ms, 4096) # replicate k (?ms, 4096)" by auto
    show ?thesis
    proof (cases res)
      case (Inl e)
      with Pair w1 show ?thesis by (simp add: plan_request_def Let_def)
    next
      case (Inr m)
      show ?thesis
      proof (cases "plan_text env m")
        case bad: (Inl e)
        with Pair Inr w1 show ?thesis by (simp add: plan_request_def Let_def)
      next
        case ok: (Inr ptext)
        obtain logs' where run: "plan_request env req c td logs w = run_plan env req c ?ms ptext logs' w1"
          using Pair Inr ok by (simp add: plan_request_def Let_def)
        from run_plan_world [of env req c ?ms ptext logs' w1]
        obtain extra where "closes (snd (run_plan env req c ?ms ptext logs' w1)) = closes w1"
          "api_calls (snd (run_plan env req c ?ms ptext logs' w1)) = api_calls w1 @ extra" by auto
        with w1 run show ?thesis by simp
      qed
    qed
  qed
qed

lemma try_body_closes: "closes (snd (try_body env c logs w)) = closes w"
  using plan_request_world by (auto simp: try_body_def Let_def split: sum.splits)

section \<open>The orchestrator\<close>

text \<open>
  Claim C7. For a request that carries a history \<open>hs\<close>, the messages built for the
  planning call are the last \<open>min (length hs) 10\<close> entries of \<open>hs\<close>, in their order,
  each reduced to its role and content, followed by the message that holds the current
  prompt; and this sequence, with the ceiling of 4096 tokens, is the first call the
  request makes to the model.
\<close>

theorem planning_messages_recent_history:
  assumes "conversationHistory req = Some hs"
  shows "build_messages td req =
           map (\<lambda>msg. \<lparr>role = h_role msg, content = h_content msg\<rparr>)
             (drop (length hs - min (length hs) 10) hs)
           @ [\<lparr>role = ''user'',
               content = planning_prompt td (page_id_text (pageContext req)) (prompt req)\<rparr>]
    \<and> length (build_messages td req) = min (length hs) 10 + 1
    \<and> (\<exists>extra. api_calls (snd (plan_request env req c td logs w))
           = api_calls w @ (build_messages td req, 4096) # extra)"
proof -
  have recent: "recentHistory (Some hs) = drop (length hs - min (length hs) 10) hs"
    by (cases "length hs \<le> 10") (auto simp: recentHistory_def min_def)
  have "length (drop (length hs - min (length hs) 10) hs) = min (length hs) 10"
    by (simp add: min_def)
  then show ?thesis
    using assms recent plan_request_world [of env req c td logs w]
    by (simp add: build_messages_def)
qed

theorem planning_messages_recent_history_witness:
  "conversationHistory long_request = Some twelve_messages
   \<and> length twelve_messages = 12
   \<and> length (build_messages [] long_request) = 11
   \<and> map content (butlast (build_messages [] long_request))
       = [''turn 2'', ''turn 3'', ''turn 4'', ''turn 5'', ''turn 6'', ''turn 7'', ''turn 8'',
          ''turn 9'', ''turn 10'', ''turn 11'']"
proof -
  have h: "conversationHistory long_request = Some twelve_messages"
    by (simp add: long_request_def)
  have len: "length twelve_messages = 12"
    by (simp add: twelve_messages_def)
  have kept: "map h_content (drop (length twelve_messages - min (length twelve_messages) 10)
                               twelve_messages)
      = [''turn 2'', ''turn 3'', ''turn 4'', ''turn 5'', ''turn 6'', ''turn 7'', ''turn 8'',
          ''turn 9'', ''turn 10'', ''turn 11'']"
    by code_simp
  from planning_messages_recent_history [OF h, of "[]" sample_env sample_client "[]" world0]
  have b: "build_messages [] long_request =
           map (\<lambda>msg. \<lparr>role = h_role msg, content = h_content msg\<rparr>)
             (drop (length twelve_messages - min (length twelve_messages) 10) twelve_messages)
           @ [\<lparr>role = ''user'',
               content = planning_prompt [] (page_id_text (pageContext long_request))
                           (prompt long_request)\<rparr>]"
    and l: "length (build_messages [] long_request) = min (length twelve_messages) 10 + 1"
    by blast+
  have "map content (butlast (build_messages [] long_request))
      = map h_content (drop (length twelve_messages - min (length twelve_messages) 10)
                         twelve_messages)"
    unfolding b by (simp add: butlast_append comp_def)
  then show ?thesis
    using h len l kept by simp
qed



text \<open>
  Claim C8. Once \<open>createSitecoreMCPClient\<close> has returned a client, the world in which
  \<open>POST\<close> returns its response has exactly one more call of \<open>client.close()\<close> than the
  world in which it started, whatever the request, the model and the tools do; and what
  \<open>POST\<close> returns is one response, either the success body or the failure body.
\<close>

theorem connection_always_released:
  assumes "createSitecoreMCPClient env w = (Inr c, w1)"
  shows "closes (snd (POST env w)) = closes w + 1
    \<and> ((\<exists>logs plan results answer. fst (POST env w) = Success logs plan results answer)
         \<noteq> (\<exists>logs details. fst (POST env w) = Failure logs details))"
proof -
  have same: "w1 = w"
    using assms
    by (auto simp: createSitecoreMCPClient_def connection_failed_def
        split: option.splits sum.splits)
  obtain resp w2 where body: "try_body env c [''Connecting to Sitecore MCP server...''] w = (resp, w2)"
    by (cases "try_body env c [''Connecting to Sitecore MCP server...''] w") auto
  have "closes w2 = closes w"
    using try_body_closes [of env c "[''Connecting to Sitecore MCP server...'']" w] body by simp
  moreover have "POST env w = (resp, close_client w2)"
    using assms same body by (simp add: POST_def)
  ultimately show ?thesis
    by (cases resp) (auto simp: close_client_def)
qed

theorem connection_always_released_witness:
  "createSitecoreMCPClient env_second_step_error world0 = (Inr sample_client, world0)
   \<and> closes world0 = 0
   \<and> closes (snd (POST env_second_step_error world0)) = 1"
proof -
  have made: "createSitecoreMCPClient env_second_step_error world0 = (Inr sample_client, world0)"
    by (simp add: createSitecoreMCPClient_def env_second_step_error_def sample_env_def
        sample_client_def)
  show ?thesis
    using connection_always_released [OF made] made by (simp add: world0_def)
qed

section \<open>The plan executor\<close>

lemma get_prop_nonnull: "get_prop a k = Some v \<Longrightarrow> a \<noteq> JNull"
  by (cases a) auto

lemma step_reply_SomeE:
  assumes "step_reply env c k a = Some r"
  obtains name where "get_prop a ''tool'' = Some (JStr name)"
    and "name \<in> set (map tool_name (listTools c))"
    and "mcp_callTool env k name (get_prop a ''parameters'') = Inr r"
    and "a \<noteq> JNull"
    and "invocation a = (name, get_prop a ''parameters'')"
    and "to_text env' (get_prop a ''tool'') = name"
  using assms
  by (auto simp: step_reply_def invocation_def to_text_def dest: get_prop_nonnull
      split: option.splits json.splits if_splits sum.splits)


lemma run_step_reports_error:
  assumes "step_reply env c (length (tool_calls w)) a = Some r" "reports_error r"
  shows "run_step env c n i a logs rs w =
           \<lparr>ex_error = Some (Error (''Error executing tool '' @ fst (invocation a)
                                     @ '': Error in step '' @ show_nat (i + 1) @ '': ''
                                     @ JSON_stringify env r)),
            ex_logs = logs @ step_header env n i a
                        @ [''Step '' @ show_nat (i + 1) @ '' completed successfully'',
                           ''Step '' @ show_nat (i + 1) @ '' returned error: ''
                             @ JSON_stringify env r,
                           ''Error executing tool '' @ fst (invocation a)
                             @ '': Error in step '' @ show_nat (i + 1) @ '': ''
                             @ JSON_stringify env r],
            ex_results = rs @ [r],
            ex_world = w\<lparr>tool_calls := tool_calls w @ [invocation a]\<rparr>\<rparr>"
proof -
  have nonnull: "r \<noteq> JNull" using assms(2) by (auto simp: reports_error_def truthy_opt_def)
  from assms(1) obtain name where "get_prop a ''tool'' = Some (JStr name)"
    "name \<in> set (map tool_name (listTools c))"
    "mcp_callTool env (length (tool_calls w)) name (get_prop a ''parameters'') = Inr r"
    "a \<noteq> JNull" "invocation a = (name, get_prop a ''parameters'')"
    "to_text env (get_prop a ''tool'') = name"
    by (rule step_reply_SomeE [where env' = env])
  then show ?thesis
    using assms(2) nonnull
    by (simp add: run_step_def callTool_def reports_error_def Let_def
        tool_failed_def errorMessage_def Error_def)
qed


text \<open>
  Claim C9. When the call of a step returns a result with a truthy \<open>isError\<close>, the
  step ends with that result appended to the collected results, and with the audit log
  extended by the step's opening lines, the line that the step completed successfully,
  the line that it returned an error, and the line of the inner \<open>catch\<close>, in this
  order; the error thrown on names the tool, the step and the raw result.
\<close>

theorem failing_result_recorded_as_completed:
  assumes "step_reply env c (length (tool_calls w)) a = Some r"
    and "reports_error r"
  shows "ex_results (run_step env c n i a logs rs w) = rs @ [r]
    \<and> ex_logs (run_step env c n i a logs rs w) =
        logs @ step_header env n i a
          @ [''Step '' @ show_nat (i + 1) @ '' completed successfully'',
             ''Step '' @ show_nat (i + 1) @ '' returned error: '' @ JSON_stringify env r,
             ''Error executing tool '' @ fst (invocation a)
               @ '': Error in step '' @ show_nat (i + 1) @ '': '' @ JSON_stringify env r]
    \<and> ex_error (run_step env c n i a logs rs w) =
        Some (Error (''Error executing tool '' @ fst (invocation a)
                       @ '': Error in step '' @ show_nat (i + 1) @ '': ''
                       @ JSON_stringify env r))"
  using run_step_reports_error [OF assms] by simp

theorem failing_result_recorded_as_completed_witness:
  \<open>step_reply env_second_step_error sample_client (length (tool_calls after_first_step))
       (list_action ''two'') = Some error_result
   \<and> reports_error error_result
   \<and> ex_results (run_step env_second_step_error sample_client 3 1 (list_action ''two'') []
                    [sample_result] after_first_step)
       = [sample_result, error_result]
   \<and> ex_logs (run_step env_second_step_error sample_client 3 1 (list_action ''two'') []
                 [sample_result] after_first_step)
       = [''Executing step 2/3: content_items.list'',
          ''Parameters: {"page":1}'',
          ''Reasoning: two'',
          ''Step 2 completed successfully'',
          ''Step 2 returned error: {"isError":true,"content":[]}'',
          ''Error executing tool content_items.list: Error in step 2: {"isError":true,"content":[]}'']\<close>
proof -
  have reply: "step_reply env_second_step_error sample_client (length (tool_calls after_first_step))
                 (list_action ''two'') = Some error_result"
    by code_simp
  have err: "reports_error error_result"
    by code_simp
  have header: \<open>step_header env_second_step_error 3 1 (list_action ''two'')
     = [''Executing step 2/3: content_items.list'', ''Parameters: {"page":1}'',
        ''Reasoning: two'']\<close>
    by code_simp
  have raw: \<open>JSON_stringify env_second_step_error error_result
     = ''{"isError":true,"content":[]}''\<close>
    by code_simp
  have name: "fst (invocation (list_action ''two'')) = ''content_items.list''"
    by code_simp
  have two: "show_nat (1 + 1) = ''2''"
    by code_simp
  from failing_result_recorded_as_completed [OF reply err, of 3 1 "[]" "[sample_result]"]
  show ?thesis
    unfolding header raw name two using reply err by simp
qed




text \<open>
  Claim C2, as the code has it. After a plan that executed without error, the request
  succeeds when the summary call returns a reply with a first content block: the final
  text is that block's text, or \<open>Execution completed successfully.\<close> when the block is
  not of type \<open>text\<close>. When the summary call throws, the request fails: the route
  answers with the failure body that holds the audit log and the error's message.
\<close>

theorem summary_reply_decides_outcome:
  assumes "ex_error (execute_plan env c plan logs w) = None"
    and "sendAnthropicMessages (anthropic_create env)
           (messages @ [\<lparr>role = ''user'',
                         content = summary_prompt env (prompt req)
                                     (ex_results (execute_plan env c plan logs w))\<rparr>])
           512 3 (ex_world (execute_plan env c plan logs w)) = (reply, w1)"
  shows "(\<forall>e. reply = Inl e \<longrightarrow>
            execute_and_finish env req c messages plan logs w =
              (Failure (ex_logs (execute_plan env c plan logs w)
                          @ [''Generating final response with conversation context...''])
                 (errorMessage e), w1))
    \<and> (\<forall>m b bs. reply = Inr m \<and> msg_content m = b # bs \<longrightarrow>
            execute_and_finish env req c messages plan logs w =
              (Success (ex_logs (execute_plan env c plan logs w)
                          @ [''Generating final response with conversation context...'',
                             PARTY @ '' Execution completed successfully''])
                 plan (ex_results (execute_plan env c plan logs w))
                 (if block_type b = ''text'' then block_text b
                  else ''Execution completed successfully.''), w1))"
  using assms by (auto simp: execute_and_finish_def finish_def Let_def)

theorem summary_reply_decides_outcome_witness:
  \<open>ex_error (execute_plan env_summary_not_text sample_client one_step_plan [] after_planning) = None
   \<and> fst (execute_and_finish env_summary_not_text sample_request sample_client [] one_step_plan []
            after_planning)
      = Success [''Executing step 1/1: content_items.list'', ''Parameters: {"page":1}'',
                 ''Reasoning: one'', ''Step 1 completed successfully'',
                 ''Generating final response with conversation context...'',
                 PARTY @ '' Execution completed successfully'']
          one_step_plan [sample_result] ''Execution completed successfully.''\<close>
proof -
  let ?ex = "execute_plan env_summary_not_text sample_client one_step_plan [] after_planning"
  let ?ms = "[] @ [\<lparr>role = ''user'',
                    content = summary_prompt env_summary_not_text (prompt sample_request)
                                (ex_results ?ex)\<rparr>]"
  let ?m = "\<lparr>msg_content = [\<lparr>block_type = ''tool_use'', block_text = []\<rparr>],
             stop_reason = Some ''tool_use''\<rparr>"
  have ok: "ex_error ?ex = None"
    by code_simp
  have logs: \<open>ex_logs ?ex = [''Executing step 1/1: content_items.list'', ''Parameters: {"page":1}'',
                 ''Reasoning: one'', ''Step 1 completed successfully'']\<close>
    by code_simp
  have results: "ex_results ?ex = [sample_result]"
    by code_simp
  have calls: "api_calls (ex_world ?ex) = [([], 4096)]"
    using execute_plan_world [of env_summary_not_text sample_client one_step_plan "[]" after_planning]
    by (simp add: after_planning_def)
  have answer: "anthropic_create env_summary_not_text (length (api_calls (ex_world ?ex))) ?ms 512
                  = Inr ?m"
    unfolding calls by (simp add: env_summary_not_text_def sample_env_def)
  have sent: "sendAnthropicMessages (anthropic_create env_summary_not_text) ?ms 512 3 (ex_world ?ex)
     = (Inr ?m, (ex_world ?ex)\<lparr>api_calls := api_calls (ex_world ?ex) @ [(?ms, 512)]\<rparr>)"
    unfolding sendAnthropicMessages_def
    using send_loop_return [of "anthropic_create env_summary_not_text" "ex_world ?ex" ?ms 512 ?m 0 3
        None] answer
    by simp
  from summary_reply_decides_outcome [OF ok sent]
  have "execute_and_finish env_summary_not_text sample_request sample_client [] one_step_plan []
          after_planning =
        (Success (ex_logs ?ex @ [''Generating final response with conversation context...'',
                                 PARTY @ '' Execution completed successfully''])
           one_step_plan (ex_results ?ex) ''Execution completed successfully.'',
         (ex_world ?ex)\<lparr>api_calls := api_calls (ex_world ?ex) @ [(?ms, 512)]\<rparr>)"
    by simp
  then show ?thesis
    unfolding logs results using ok by simp
qed

text \<open>Against the claim as it is written: the plan of the request executes, the summary
  call fails with status 500, and the request fails.\<close>

theorem summary_failure_fails_request:
  \<open>fst (POST env_summary_fails world0) =
     Failure
       [''Connecting to Sitecore MCP server...'',
        ''MCP connection established successfully'',
        ''Fetching available tools from MCP server...'',
        ''Available tools: 2'',
        ''Fetching tool schemas...'',
        ''Prompt received: "list the top 5 items"'',
        ''Conversation history length: 0'',
        ''Querying Claude Sonnet 4.5 for execution plan with conversation context...'',
        ''Claude response received, length: 87 chars'',
        ''Action plan parsed successfully with 1 steps'',
        ''Executing step 1/1: content_items.list'',
        ''Parameters: {"page":1,"pageSize":5}'',
        ''Reasoning: list'',
        ''Step 1 completed successfully'',
        ''Generating final response with conversation context...'']
       ''500 Internal server error''\<close>
  by code_simp

end
